theory Spec2Isabelle
  imports Complex_Main
begin

section \<open>Tensors\<close>

text \<open>
  The notebook \<^verbatim>\<open>1_core_tensorflow.ipynb\<close> computes on \<^verbatim>\<open>tf.float32\<close> tensors.
  The embedding keeps the shapes of the tensors and the order of the operations. An
  entry of a tensor is a number or NaN, and the operations treat NaN as TensorFlow
  does: the square root of a negative number is NaN, 0/0 is NaN, an operation with a
  NaN operand yields NaN, and no comparison with NaN holds. The numbers themselves are
  taken in exact real arithmetic: rounding, overflow to an infinity and underflow to
  zero of \<^verbatim>\<open>float32\<close> are not part of the model, so every statement below about
  tensors of numbers is a statement about the computation as long as it neither
  rounds, overflows nor underflows.

  \<^item> an entry, and a scalar tensor, is an \<open>fscalar\<close>;
  \<^item> a rank-1 tensor of shape \<open>[m]\<close> is an \<open>fscalar list\<close> of length \<open>m\<close>;
  \<^item> a rank-2 tensor of shape \<open>[m, n]\<close> is a \<open>matrix\<close>: its \<open>m\<close> rows and the
    column count \<open>n\<close>, which a tensor keeps also when it has no row.
\<close>

datatype fscalar = NaN | Num real

fun fadd :: "fscalar \<Rightarrow> fscalar \<Rightarrow> fscalar" where
  "fadd (Num x) (Num y) = Num (x + y)"
| "fadd _ _ = NaN"

fun fsub :: "fscalar \<Rightarrow> fscalar \<Rightarrow> fscalar" where
  "fsub (Num x) (Num y) = Num (x - y)"
| "fsub _ _ = NaN"

fun fmul :: "fscalar \<Rightarrow> fscalar \<Rightarrow> fscalar" where
  "fmul (Num x) (Num y) = Num (x * y)"
| "fmul _ _ = NaN"

text \<open>
  Division. A number other than zero over zero would be an infinity, which the model
  does not have; the notebook divides by the number of entries of a tensor only, and
  the one division by zero it evaluates is 0/0, the mean of no entry at all: NaN.
\<close>

fun fdiv :: "fscalar \<Rightarrow> fscalar \<Rightarrow> fscalar" where
  "fdiv (Num x) (Num y) = (if y = 0 then NaN else Num (x / y))"
| "fdiv _ _ = NaN"

fun fsqrt :: "fscalar \<Rightarrow> fscalar" where
  "fsqrt (Num x) = (if x < 0 then NaN else Num (sqrt x))"
| "fsqrt NaN = NaN"

fun fexp :: "fscalar \<Rightarrow> fscalar" where
  "fexp (Num x) = Num (exp x)"
| "fexp NaN = NaN"

definition fsum :: "fscalar list \<Rightarrow> fscalar" where
  "fsum xs = foldr fadd xs (Num 0)"

text \<open>Comparison as TensorFlow and Python compare: no comparison with NaN holds.\<close>

definition fle :: "fscalar \<Rightarrow> fscalar \<Rightarrow> bool" where
  "fle a b = (case a of NaN \<Rightarrow> False | Num x \<Rightarrow> (case b of NaN \<Rightarrow> False | Num y \<Rightarrow> x \<le> y))"

record matrix =
  ncols :: nat
  rows :: "fscalar list list"

definition nrows :: "matrix \<Rightarrow> nat" where
  "nrows M = length (rows M)"

definition shape :: "matrix \<Rightarrow> nat \<times> nat" where
  "shape M = (nrows M, ncols M)"

text \<open>Every tensor is rectangular: each row has \<open>ncols\<close> entries.\<close>

definition wf_matrix :: "matrix \<Rightarrow> bool" where
  "wf_matrix M = list_all (\<lambda>r. length r = ncols M) (rows M)"

text \<open>
  The errors TensorFlow raises on the operations below, each with the shapes it reports
  in its message.
\<close>

datatype tf_error =
    MatMulIncompatible "nat \<times> nat" "nat \<times> nat"
      \<comment> \<open>InvalidArgumentError: Matrix size-incompatible: In[0]: [m,n], In[1]: [k,c]\<close>
  | CannotSqueeze "nat \<times> nat"
      \<comment> \<open>InvalidArgumentError: Can not squeeze dim[1], expected a dimension of 1\<close>
  | IncompatibleShapes nat nat
      \<comment> \<open>InvalidArgumentError: Incompatible shapes: [a] vs. [b]\<close>
  | AssignShapeMismatch "nat \<times> nat" "nat \<times> nat"
      \<comment> \<open>ValueError: Cannot assign value to variable: shape mismatch\<close>
  | StackShapeMismatch
      \<comment> \<open>InvalidArgumentError: Shapes of all inputs must match\<close>

definition bindE :: "'e + 'a \<Rightarrow> ('a \<Rightarrow> 'e + 'b) \<Rightarrow> 'e + 'b" where
  "bindE r f = (case r of Inl e \<Rightarrow> Inl e | Inr v \<Rightarrow> f v)"

subsection \<open>Point-wise operations and reductions\<close>

definition ones_like :: "fscalar list \<Rightarrow> fscalar list" where
  "ones_like X = map (\<lambda>_. Num 1) X"

text \<open>\<^verbatim>\<open>tf.square(X)\<close>, and what \<^verbatim>\<open>X ** 2\<close> computes: the square of every entry.\<close>

definition tf_square :: "fscalar list \<Rightarrow> fscalar list" where
  "tf_square X = map (\<lambda>x. fmul x x) X"

text \<open>\<^verbatim>\<open>tf.sqrt(X)\<close>: the square root of every entry, NaN where the entry is negative.\<close>

definition tf_sqrt :: "fscalar list \<Rightarrow> fscalar list" where
  "tf_sqrt X = map fsqrt X"

definition tf_exp :: "fscalar list \<Rightarrow> fscalar list" where
  "tf_exp X = map fexp X"

text \<open>
  \<^verbatim>\<open>a - b\<close> on rank-1 tensors broadcasts: equal lengths subtract entry by entry, a
  tensor of length 1 is stretched to the other's length, anything else raises.
\<close>

definition tf_sub :: "fscalar list \<Rightarrow> fscalar list \<Rightarrow> tf_error + fscalar list" where
  "tf_sub a b =
     (if length a = length b then Inr (map2 (\<lambda>x y. fsub x y) a b)
      else if length b = 1 then Inr (map (\<lambda>x. fsub x (hd b)) a)
      else if length a = 1 then Inr (map (\<lambda>y. fsub (hd a) y) b)
      else Inl (IncompatibleShapes (length a) (length b)))"

text \<open>\<^verbatim>\<open>tf.reduce_mean\<close>: the sum over the count; over no entry at all it is 0/0.\<close>

definition reduce_mean :: "fscalar list \<Rightarrow> fscalar" where
  "reduce_mean xs = fdiv (fsum xs) (Num (real (length xs)))"

subsection \<open>Rank-2 operations\<close>

definition fdot :: "fscalar list \<Rightarrow> fscalar list \<Rightarrow> fscalar" where
  "fdot a b = fsum (map2 (\<lambda>x y. fmul x y) a b)"

definition col :: "matrix \<Rightarrow> nat \<Rightarrow> fscalar list" where
  "col M j = map (\<lambda>r. r ! j) (rows M)"

definition transpose_m :: "matrix \<Rightarrow> matrix" where
  "transpose_m M = \<lparr>ncols = nrows M, rows = map (col M) [0..<ncols M]\<rparr>"

text \<open>\<^verbatim>\<open>X @ W\<close>: the inner dimensions must agree; \<^verbatim>\<open>matmul\<close> never broadcasts them.\<close>

definition matmul :: "matrix \<Rightarrow> matrix \<Rightarrow> tf_error + matrix" where
  "matmul A B =
     (if ncols A \<noteq> nrows B then Inl (MatMulIncompatible (shape A) (shape B))
      else Inr \<lparr>ncols = ncols B,
                rows = map (\<lambda>r. map (\<lambda>j. fdot r (col B j)) [0..<ncols B]) (rows A)\<rparr>)"

text \<open>\<^verbatim>\<open>tf.squeeze(M, -1)\<close>: drops the last axis, which must have size 1.\<close>

definition squeeze :: "matrix \<Rightarrow> tf_error + fscalar list" where
  "squeeze M =
     (if ncols M \<noteq> 1 then Inl (CannotSqueeze (shape M)) else Inr (col M 0))"

text \<open>\<^verbatim>\<open>tf.stack(fs, axis=1)\<close> of rank-1 tensors of one common length.\<close>

definition stack_axis1 :: "fscalar list list \<Rightarrow> tf_error + matrix" where
  "stack_axis1 fs =
     (case fs of
        [] \<Rightarrow> Inl StackShapeMismatch
      | f # _ \<Rightarrow>
          if list_all (\<lambda>g. length g = length f) fs
          then Inr \<lparr>ncols = length fs,
                    rows = map (\<lambda>i. map (\<lambda>g. g ! i) fs) [0..<length f]\<rparr>
          else Inl StackShapeMismatch)"

text \<open>\<^verbatim>\<open>dW * LEARNING_RATE\<close>: a tensor times a Python float.\<close>

definition scale :: "matrix \<Rightarrow> real \<Rightarrow> matrix" where
  "scale M c = \<lparr>ncols = ncols M, rows = map (map (\<lambda>x. fmul x (Num c))) (rows M)\<rparr>"

text \<open>\<^verbatim>\<open>np.zeros((n, c))\<close>.\<close>

definition zeros :: "nat \<Rightarrow> nat \<Rightarrow> matrix" where
  "zeros n c = \<lparr>ncols = c, rows = replicate n (replicate c (Num 0))\<rparr>"

text \<open>
  \<^verbatim>\<open>W.assign_sub(D)\<close>: the variable keeps its shape, so the value subtracted must
  have exactly that shape.
\<close>

definition assign_sub :: "matrix \<Rightarrow> matrix \<Rightarrow> tf_error + matrix" where
  "assign_sub W D =
     (if shape W \<noteq> shape D then Inl (AssignShapeMismatch (shape W) (shape D))
      else Inr \<lparr>ncols = ncols W,
                rows = map2 (\<lambda>r d. map2 (\<lambda>x y. fsub x y) r d) (rows W) (rows D)\<rparr>)"

section \<open>The linear model of the bonus section\<close>

text \<open>
  \<^verbatim>\<open>
  def make_features(X):
      f1 = tf.ones_like(X)  # Bias.
      f2 = X
      f3 = tf.square(X)
      f4 = tf.sqrt(X)
      f5 = tf.exp(X)
      return tf.stack([f1, f2, f3, f4, f5], axis=1)

  def predict(X, W):
      return tf.squeeze(X @ W, -1)

  def loss_mse(X, Y, W):
      Y_hat = predict(X, W)
      errors = (Y_hat - Y) ** 2
      return tf.reduce_mean(errors)
  \<close>
\<close>

definition make_features :: "fscalar list \<Rightarrow> tf_error + matrix" where
  "make_features X =
     (let f1 = ones_like X;
          f2 = X;
          f3 = tf_square X;
          f4 = tf_sqrt X;
          f5 = tf_exp X
      in stack_axis1 [f1, f2, f3, f4, f5])"

definition predict :: "matrix \<Rightarrow> matrix \<Rightarrow> tf_error + fscalar list" where
  "predict X W = bindE (matmul X W) squeeze"

definition loss_mse :: "matrix \<Rightarrow> fscalar list \<Rightarrow> matrix \<Rightarrow> tf_error + fscalar" where
  "loss_mse X Y W =
     bindE (predict X W) (\<lambda>Y_hat.
     bindE (tf_sub Y_hat Y) (\<lambda>d.
       let errors = tf_square d in Inr (reduce_mean errors)))"

section \<open>Reverse-mode differentiation of the loss\<close>

text \<open>
  \<^verbatim>\<open>
  def compute_gradients(X, Y, W):
      with tf.GradientTape() as tape:
          loss = loss_mse(X, Y, W)
      return tape.gradient(loss, W)
  \<close>
  The tape records the operations of \<^verbatim>\<open>loss_mse\<close> in the order they run, with the
  values they read; \<^verbatim>\<open>tape.gradient\<close> then walks the record backwards and applies the
  gradient function TensorFlow registers for each operation, starting from the seed 1
  at the loss.
\<close>

record tape =
  tp_X :: matrix
  tp_Y_hat :: "fscalar list"
  tp_d :: "fscalar list"
  tp_errors :: "fscalar list"

definition record_loss_mse :: "matrix \<Rightarrow> fscalar list \<Rightarrow> matrix \<Rightarrow> tf_error + fscalar \<times> tape" where
  "record_loss_mse X Y W =
     bindE (matmul X W) (\<lambda>P.
     bindE (squeeze P) (\<lambda>Y_hat.
     bindE (tf_sub Y_hat Y) (\<lambda>d.
       let errors = tf_square d
       in Inr (reduce_mean errors,
               \<lparr>tp_X = X, tp_Y_hat = Y_hat, tp_d = d, tp_errors = errors\<rparr>))))"

text \<open>Mean: every entry receives the incoming gradient over the number of entries.\<close>

definition mean_grad :: "fscalar list \<Rightarrow> fscalar \<Rightarrow> fscalar list" where
  "mean_grad xs g = map (\<lambda>_. fdiv g (Num (real (length xs)))) xs"

text \<open>Power with exponent 2: \<open>g * 2 * x ^ (2 - 1)\<close> at every entry.\<close>

definition pow2_grad :: "fscalar list \<Rightarrow> fscalar list \<Rightarrow> fscalar list" where
  "pow2_grad xs gs = map2 (\<lambda>x g. fmul g (fmul (Num 2) x)) xs gs"

text \<open>
  Subtraction, left operand: the incoming gradient, summed over the axis along which
  the operand was stretched by broadcasting.
\<close>

definition sub_grad_lhs :: "fscalar list \<Rightarrow> fscalar list \<Rightarrow> fscalar list" where
  "sub_grad_lhs a gs = (if length a = length gs then gs else [fsum gs])"

text \<open>Squeeze: the incoming gradient reshaped to the operand's shape \<open>[m, 1]\<close>.\<close>

definition squeeze_grad :: "fscalar list \<Rightarrow> matrix" where
  "squeeze_grad gs = \<lparr>ncols = 1, rows = map (\<lambda>g. [g]) gs\<rparr>"

text \<open>Matrix product \<open>X @ W\<close>, right operand: \<open>transpose X @ g\<close>.\<close>

definition matmul_grad_rhs :: "matrix \<Rightarrow> matrix \<Rightarrow> tf_error + matrix" where
  "matmul_grad_rhs X g = matmul (transpose_m X) g"

definition tape_gradient :: "tape \<Rightarrow> tf_error + matrix" where
  "tape_gradient tp =
     (let g_errors = mean_grad (tp_errors tp) (Num 1);
          g_d = pow2_grad (tp_d tp) g_errors;
          g_Y_hat = sub_grad_lhs (tp_Y_hat tp) g_d;
          g_P = squeeze_grad g_Y_hat
      in matmul_grad_rhs (tp_X tp) g_P)"

definition compute_gradients :: "matrix \<Rightarrow> fscalar list \<Rightarrow> matrix \<Rightarrow> tf_error + matrix" where
  "compute_gradients X Y W =
     bindE (record_loss_mse X Y W) (\<lambda>(loss, tp). tape_gradient tp)"

section \<open>The training loop\<close>

text \<open>
  \<^verbatim>\<open>
  Xf = make_features(X)
  n_weights = Xf.shape[1]
  W = tf.Variable(np.zeros((n_weights, 1)), dtype=tf.float32)
  steps, losses = [], []
  for step in range(1, STEPS + 1):
      dW = compute_gradients(Xf, Y, W)
      W.assign_sub(dW * LEARNING_RATE)
      if step % 100 == 0:
          loss = loss_mse(Xf, Y, W)
          steps.append(step)
          losses.append(loss)
  print(f"STEP: {STEPS} MSE: {loss_mse(Xf, Y, W)}")
  \<close>
  The state of the loop is the variable \<open>W\<close> and the two lists kept for plotting. An
  exception leaves the loop at once: the loop returns the error.
\<close>

record train_state =
  st_W :: matrix
  st_steps :: "int list"
  st_losses :: "fscalar list"

definition loop_body :: "matrix \<Rightarrow> fscalar list \<Rightarrow> real \<Rightarrow> train_state \<Rightarrow> int \<Rightarrow> tf_error + train_state" where
  "loop_body Xf Y LEARNING_RATE st step =
     bindE (compute_gradients Xf Y (st_W st)) (\<lambda>dW.
     bindE (assign_sub (st_W st) (scale dW LEARNING_RATE)) (\<lambda>W'.
       if step mod 100 = 0
       then bindE (loss_mse Xf Y W') (\<lambda>loss.
              Inr (st\<lparr>st_W := W', st_steps := st_steps st @ [step], st_losses := st_losses st @ [loss]\<rparr>))
       else Inr (st\<lparr>st_W := W'\<rparr>)))"

fun for_loop :: "matrix \<Rightarrow> fscalar list \<Rightarrow> real \<Rightarrow> train_state \<Rightarrow> int list \<Rightarrow> tf_error + train_state" where
  "for_loop Xf Y LEARNING_RATE st [] = Inr st"
| "for_loop Xf Y LEARNING_RATE st (step # rest) =
     bindE (loop_body Xf Y LEARNING_RATE st step) (\<lambda>st'.
       for_loop Xf Y LEARNING_RATE st' rest)"

text \<open>\<^verbatim>\<open>range(1, STEPS + 1)\<close>: the integers \<open>1, \<dots>, STEPS\<close>, none when \<open>STEPS < 1\<close>.\<close>

definition range_steps :: "int \<Rightarrow> int list" where
  "range_steps STEPS = map int [1..<nat (STEPS + 1)]"

definition train :: "fscalar list \<Rightarrow> fscalar list \<Rightarrow> int \<Rightarrow> real \<Rightarrow> tf_error + train_state \<times> fscalar" where
  "train X Y STEPS LEARNING_RATE =
     bindE (make_features X) (\<lambda>Xf.
       let n_weights = ncols Xf;
           W0 = zeros n_weights 1
       in bindE (for_loop Xf Y LEARNING_RATE \<lparr>st_W = W0, st_steps = [], st_losses = []\<rparr> (range_steps STEPS))
            (\<lambda>st. bindE (loss_mse Xf Y (st_W st)) (\<lambda>mse. Inr (st, mse))))"

text \<open>One update of plain gradient descent: \<open>w \<mapsto> w - LEARNING_RATE * gradient w\<close>.\<close>

definition gd_step :: "matrix \<Rightarrow> fscalar list \<Rightarrow> real \<Rightarrow> matrix \<Rightarrow> tf_error + matrix" where
  "gd_step Xf Y LEARNING_RATE w =
     bindE (compute_gradients Xf Y w) (\<lambda>dW. assign_sub w (scale dW LEARNING_RATE))"

text \<open>
  The final weights of a run of the loop, or the error that ended it.
\<close>

definition final_W :: "tf_error + train_state \<Rightarrow> tf_error + matrix" where
  "final_W r = bindE r (\<lambda>st. Inr (st_W st))"

text \<open>
  The shapes on which every operation of the loss goes through: the inner dimensions of
  \<open>X @ w\<close> agree, \<open>w\<close> is a column, and the predictions and targets are compatible
  under broadcasting.
\<close>

definition shapes_ok :: "matrix \<Rightarrow> fscalar list \<Rightarrow> matrix \<Rightarrow> bool" where
  "shapes_ok X Y w \<longleftrightarrow>
     ncols X = nrows w \<and> ncols w = 1 \<and>
     (nrows X = length Y \<or> length Y = 1 \<or> nrows X = 1)"

section \<open>Tensors of numbers and the formulas of the specification\<close>

text \<open>
  The tensors that hold numbers only, no NaN: the rank-1 tensor of a list of reals,
  the rank-2 tensor with \<open>n\<close> columns of a list of rows of reals, and a rank-1 tensor
  as the \<open>[n, 1]\<close> tensor that holds it, the shape of the weights.
\<close>

definition numbers :: "real list \<Rightarrow> fscalar list" where
  "numbers v = map Num v"

definition number_matrix :: "nat \<Rightarrow> real list list \<Rightarrow> matrix" where
  "number_matrix n Xs = \<lparr>ncols = n, rows = map numbers Xs\<rparr>"

definition column :: "fscalar list \<Rightarrow> matrix" where
  "column v = \<lparr>ncols = 1, rows = map (\<lambda>x. [x]) v\<rparr>"

text \<open>The inner product of two vectors of reals.\<close>

definition dot :: "real list \<Rightarrow> real list \<Rightarrow> real" where
  "dot a b = sum_list (map2 (\<lambda>x y. x * y) a b)"

text \<open>
  The loss as the specification writes it, \<open>mean((w\<cdot>features(x) - y)^2)\<close> over a
  dataset of pairs of a feature vector and a target. The mean of no sample at all is
  undefined, written \<open>NaN\<close>.
\<close>

definition mse_spec :: "(real list \<times> real) list \<Rightarrow> real list \<Rightarrow> fscalar" where
  "mse_spec D w =
     (if D = [] then NaN
      else Num (sum_list (map (\<lambda>(f, y). (dot w f - y) ^ 2) D) / real (length D)))"

text \<open>
  The gradient as the specification writes it, \<open>(2/m) * X\<^sup>t(Xw - y)\<close>, for the
  \<open>m\<close> rows \<open>Xs\<close> of the feature matrix: the product \<open>Xw\<close>, the product of the
  transpose with a vector, and the closed form.
\<close>

definition mat_vec :: "real list list \<Rightarrow> real list \<Rightarrow> real list" where
  "mat_vec Xs v = map (\<lambda>r. dot r v) Xs"

definition transpose_vec :: "real list list \<Rightarrow> nat \<Rightarrow> real list \<Rightarrow> real list" where
  "transpose_vec Xs n r = map (\<lambda>j. dot (map (\<lambda>row. row ! j) Xs) r) [0..<n]"

definition grad_closed_form :: "real list list \<Rightarrow> real list \<Rightarrow> real list \<Rightarrow> real list" where
  "grad_closed_form Xs ys w =
     map (\<lambda>g. 2 / real (length Xs) * g)
       (transpose_vec Xs (length w) (map2 (\<lambda>p y. p - y) (mat_vec Xs w) ys))"

section \<open>The one-dimensional model of the lab\<close>

text \<open>
  \<^verbatim>\<open>
  def loss_mse(X, Y, w0, w1):
      Y_hat = w0 * X + w1
      errors = (Y_hat - Y) ** 2
      return tf.reduce_mean(errors)
  \<close>
  The first definition of \<^verbatim>\<open>loss_mse\<close> in the notebook, for the model
  \<open>w0 * x + w1\<close> with two scalar weights; the bonus section redefines the name.
\<close>

definition loss_mse_scalar :: "fscalar list \<Rightarrow> fscalar list \<Rightarrow> fscalar \<Rightarrow> fscalar \<Rightarrow> tf_error + fscalar" where
  "loss_mse_scalar X Y w0 w1 =
     (let Y_hat = map (\<lambda>v. fadd v w1) (map (\<lambda>x. fmul w0 x) X)
      in bindE (tf_sub Y_hat Y) (\<lambda>d.
           let errors = tf_square d in Inr (reduce_mean errors)))"

section \<open>Quantities of the descent argument\<close>

text \<open>
  The sum of the squares of a vector, the residual \<open>Xw - y\<close> of a weight vector and
  the sum of the squares of all entries of the feature matrix.
\<close>

definition sq_sum :: "real list \<Rightarrow> real" where
  "sq_sum v = sum_list (map (\<lambda>x. x ^ 2) v)"

definition residual :: "real list list \<Rightarrow> real list \<Rightarrow> real list \<Rightarrow> real list" where
  "residual Xs ys v = map2 (\<lambda>p y. p - y) (mat_vec Xs v) ys"

definition frobenius :: "real list list \<Rightarrow> real" where
  "frobenius Xs = sum_list (map sq_sum Xs)"

text \<open>
  A learning rate that is small enough for the dataset: any rate from 0 up to
  \<open>m / (1 + \<Sum> X\<^sub>i\<^sub>j\<^sup>2)\<close>.
\<close>

definition lr_bound :: "real list list \<Rightarrow> real" where
  "lr_bound Xs = real (length Xs) / (1 + frobenius Xs)"

text \<open>
  The loss of the weight vector \<open>v\<close> on a dataset with at least one sample, as a
  number.
\<close>

definition lossv :: "real list list \<Rightarrow> real list \<Rightarrow> real list \<Rightarrow> real" where
  "lossv Xs Y v = sq_sum (residual Xs Y v) / real (length Y)"

text \<open>
  The invariant of the loop under a small learning rate: the weights are a column of
  numbers of the right length, the losses reported so far do not increase, and none
  of them is below the loss of the current weights.
\<close>

definition loop_inv :: "nat \<Rightarrow> real list list \<Rightarrow> real list \<Rightarrow> train_state \<Rightarrow> bool" where
  "loop_inv n Xs Y st \<longleftrightarrow>
     (\<exists>v. st_W st = column (numbers v) \<and> length v = n
        \<and> (\<forall>l\<in>set (st_losses st). fle (Num (lossv Xs Y v)) l))
     \<and> sorted_wrt (\<lambda>a b. fle b a) (st_losses st)"

section \<open>The training loop of the lab\<close>

text \<open>
  \<^verbatim>\<open>
  X = tf.constant(range(10), dtype=tf.float32)
  Y = 2 * X + 10
  \<close>
  The toy dataset holds numbers only; it is given by its entries.
\<close>

definition X_toy :: "real list" where
  "X_toy = map real [0..<10]"

definition Y_toy :: "real list" where
  "Y_toy = map (\<lambda>v. v + 10) (map (\<lambda>x. 2 * x) X_toy)"

text \<open>
  Modelled from the spec: the body of \<^verbatim>\<open>compute_gradients(X, Y, w0, w1)\<close> is left
  to the reader in the lab notebook (\<^verbatim>\<open># TODO: Your code goes here.\<close>). The
  specification gives its result: the gradient of the loss with respect to each
  weight, \<open>(2/m) * X\<^sup>t(Xw - y)\<close>, here for the features \<open>[x, 1]\<close> of the model
  \<open>w0 * x + w1\<close>.
\<close>

definition compute_gradients_scalar :: "real list \<Rightarrow> real list \<Rightarrow> real \<Rightarrow> real \<Rightarrow> real \<times> real" where
  "compute_gradients_scalar X Y w0 w1 =
     (let dW = grad_closed_form (map (\<lambda>x. [x, 1]) X) Y [w0, w1] in (dW ! 0, dW ! 1))"

text \<open>
  The state of the lab's loop: the two weights and the lines it has printed (step,
  loss and weights).
\<close>

record lab_state =
  lab_w0 :: real
  lab_w1 :: real
  lab_printed :: "(int \<times> fscalar \<times> real \<times> real) list"

text \<open>
  Modelled from the spec: the statements of the loop body of the lab, which the
  notebook leaves to the reader:
  \<^verbatim>\<open>
  STEPS = 1000
  LEARNING_RATE = 0.02
  w0 = tf.Variable(0.0)
  w1 = tf.Variable(0.0)
  for step in range(1, STEPS + 1):
      dw0, dw1 = None  # TODO: Your code goes here.
      # TODO: Your code goes here.
      # TODO: Your code goes here.
      if step % 100 == 0:
          loss = None  # TODO: Your code goes here.
          print(MSG.format(step=step, loss=loss, w0=w0.numpy(), w1=w1.numpy()))
  \<close>
  The specification and the task of the lab give the missing statements: compute the
  gradient, update each weight by \<open>w \<leftarrow> w - LEARNING_RATE * gradient\<close>
  (\<^verbatim>\<open>assign_sub\<close>), and on every 100th step recompute the loss with
  \<^verbatim>\<open>loss_mse\<close> and print it with the weights. The loop header, the constants and
  the starting weights are the notebook's.
\<close>

definition lab_loop_body :: "real list \<Rightarrow> real list \<Rightarrow> real \<Rightarrow> lab_state \<Rightarrow> int \<Rightarrow> tf_error + lab_state" where
  "lab_loop_body X Y LEARNING_RATE st step =
     (let (dw0, dw1) = compute_gradients_scalar X Y (lab_w0 st) (lab_w1 st);
          w0' = lab_w0 st - dw0 * LEARNING_RATE;
          w1' = lab_w1 st - dw1 * LEARNING_RATE
      in if step mod 100 = 0
         then bindE (loss_mse_scalar (numbers X) (numbers Y) (Num w0') (Num w1')) (\<lambda>loss.
                Inr (st\<lparr>lab_w0 := w0', lab_w1 := w1',
                        lab_printed := lab_printed st @ [(step, loss, w0', w1')]\<rparr>))
         else Inr (st\<lparr>lab_w0 := w0', lab_w1 := w1'\<rparr>))"

fun lab_for_loop :: "real list \<Rightarrow> real list \<Rightarrow> real \<Rightarrow> lab_state \<Rightarrow> int list \<Rightarrow> tf_error + lab_state" where
  "lab_for_loop X Y LEARNING_RATE st [] = Inr st"
| "lab_for_loop X Y LEARNING_RATE st (step # rest) =
     bindE (lab_loop_body X Y LEARNING_RATE st step) (\<lambda>st'.
       lab_for_loop X Y LEARNING_RATE st' rest)"

definition train_lab :: "real list \<Rightarrow> real list \<Rightarrow> int \<Rightarrow> real \<Rightarrow> tf_error + lab_state" where
  "train_lab X Y STEPS LEARNING_RATE =
     lab_for_loop X Y LEARNING_RATE \<lparr>lab_w0 = 0, lab_w1 = 0, lab_printed = []\<rparr> (range_steps STEPS)"

text \<open>The squared distance of the weights from \<open>(2, 10)\<close>.\<close>

definition toy_error :: "lab_state \<Rightarrow> real" where
  "toy_error st = (lab_w0 st - 2) ^ 2 + (lab_w1 st - 10) ^ 2"

text \<open>
  The single step of the specification, \<open>w \<mapsto> w - learning_rate * gradient(dataset, w)\<close>,
  written out entry by entry on the weight tensor, with the gradient of the gradient
  computer.
\<close>

definition descent_step :: "matrix \<Rightarrow> fscalar list \<Rightarrow> real \<Rightarrow> matrix \<Rightarrow> tf_error + matrix" where
  "descent_step Xf Y learning_rate w =
     bindE (compute_gradients Xf Y w) (\<lambda>gradient.
       Inr \<lparr>ncols = ncols w,
            rows = map2 (\<lambda>w_row g_row.
                            map2 (\<lambda>x g. fsub x (fmul (Num learning_rate) g)) w_row g_row)
                     (rows w) (rows gradient)\<rparr>)"

text \<open>
  The same step on a weight vector, with the gradient in closed form, and its
  \<open>n\<close>-fold iteration.
\<close>

fun gd_iterate :: "real list list \<Rightarrow> real list \<Rightarrow> real \<Rightarrow> nat \<Rightarrow> real list \<Rightarrow> real list" where
  "gd_iterate Xs ys learning_rate 0 v = v"
| "gd_iterate Xs ys learning_rate (Suc n) v =
     gd_iterate Xs ys learning_rate n
       (map2 (\<lambda>x g. x - learning_rate * g) v (grad_closed_form Xs ys v))"

section \<open>Operations on tensors of numbers\<close>

lemma length_numbers [simp]: "length (numbers v) = length v"
  by (simp add: numbers_def)

lemma ncols_number_matrix [simp]: "ncols (number_matrix n Xs) = n"
  by (simp add: number_matrix_def)

lemma nrows_number_matrix [simp]: "nrows (number_matrix n Xs) = length Xs"
  by (simp add: number_matrix_def nrows_def)

lemma rows_number_matrix: "rows (number_matrix n Xs) = map numbers Xs"
  by (simp add: number_matrix_def)

lemma wf_number_matrix:
  "wf_matrix (number_matrix n Xs) \<longleftrightarrow> list_all (\<lambda>r. length r = n) Xs"
  by (simp add: wf_matrix_def number_matrix_def list_all_iff)

lemma ncols_column [simp]: "ncols (column v) = 1"
  by (simp add: column_def)

lemma nrows_column [simp]: "nrows (column v) = length v"
  by (simp add: column_def nrows_def)

lemma col_column [simp]: "col (column v) 0 = v"
  by (simp add: col_def column_def comp_def)

lemma fsum_Nil [simp]: "fsum [] = Num 0"
  by (simp add: fsum_def)

lemma fsum_Cons [simp]: "fsum (x # xs) = fadd x (fsum xs)"
  by (simp add: fsum_def)

lemma fsum_Num: "fsum (map (\<lambda>x. Num (f x)) xs) = Num (sum_list (map f xs))"
  by (induction xs) simp_all

lemma fsum_numbers: "fsum (numbers xs) = Num (sum_list xs)"
  using fsum_Num [of "\<lambda>x. x" xs] by (simp add: numbers_def)

lemma fdot_numbers: "fdot (numbers a) (numbers b) = Num (dot a b)"
proof (induction a arbitrary: b)
  case Nil
  show ?case by (simp add: fdot_def dot_def numbers_def)
next
  case (Cons x a)
  show ?case
  proof (cases b)
    case Nil
    then show ?thesis by (simp add: fdot_def dot_def numbers_def)
  next
    case (Cons y b')
    with Cons.IH [of b'] show ?thesis by (simp add: fdot_def dot_def numbers_def)
  qed
qed

lemma fdot_Num: "fdot (map Num a) (map Num b) = Num (dot a b)"
  using fdot_numbers [of a b] by (simp add: numbers_def)

section \<open>Shapes and errors\<close>

lemma bindE_Inl [simp]: "bindE (Inl e) f = Inl e"
  by (simp add: bindE_def)

lemma bindE_Inr [simp]: "bindE (Inr v) f = f v"
  by (simp add: bindE_def)

lemma bindE_eq_Inr: "bindE r f = Inr y \<longleftrightarrow> (\<exists>v. r = Inr v \<and> f v = Inr y)"
  by (cases r) simp_all

lemma length_col [simp]: "length (col M j) = nrows M"
  by (simp add: col_def nrows_def)

lemma predict_Inr:
  "ncols X = nrows w \<Longrightarrow> ncols w = 1 \<Longrightarrow>
   predict X w = Inr (map (\<lambda>r. fdot r (col w 0)) (rows X))"
  by (simp add: predict_def matmul_def squeeze_def col_def)

lemma predict_Inl:
  "\<not> (ncols X = nrows w \<and> ncols w = 1) \<Longrightarrow> \<exists>e. predict X w = Inl e"
  by (auto simp add: predict_def matmul_def squeeze_def)

lemma tf_sub_ok: "(\<exists>d. tf_sub a b = Inr d) \<longleftrightarrow> (length a = length b \<or> length b = 1 \<or> length a = 1)"
  by (auto simp add: tf_sub_def)

lemma length_tf_sub:
  "tf_sub a b = Inr d \<Longrightarrow> length d = (if length a = length b \<or> length b = 1 then length a else length b)"
  by (auto simp add: tf_sub_def split: if_splits)

lemma loss_mse_ok: "(\<exists>v. loss_mse X Y w = Inr v) \<longleftrightarrow> shapes_ok X Y w"
proof (cases "ncols X = nrows w \<and> ncols w = 1")
  case True
  then show ?thesis
    using tf_sub_ok [of "map (\<lambda>r. fdot r (col w 0)) (rows X)" Y]
    by (auto simp add: loss_mse_def predict_Inr shapes_ok_def bindE_eq_Inr nrows_def Let_def)
next
  case False
  then obtain e where "predict X w = Inl e" using predict_Inl by blast
  with False show ?thesis by (auto simp add: loss_mse_def shapes_ok_def)
qed

text \<open>The forward pass the tape records is the loss function itself.\<close>

lemma record_loss_mse_fst:
  "bindE (record_loss_mse X Y w) (\<lambda>(loss, tp). Inr loss) = loss_mse X Y w"
proof (cases "matmul X w")
  case (Inl e)
  then show ?thesis by (simp add: record_loss_mse_def loss_mse_def predict_def)
next
  case P: (Inr P)
  show ?thesis
  proof (cases "squeeze P")
    case (Inl e)
    with P show ?thesis by (simp add: record_loss_mse_def loss_mse_def predict_def)
  next
    case Y_hat: (Inr Y_hat)
    show ?thesis
      using P Y_hat
      by (cases "tf_sub Y_hat Y")
         (simp_all add: record_loss_mse_def loss_mse_def predict_def Let_def)
  qed
qed

lemma record_loss_mse_ok: "(\<exists>v. record_loss_mse X Y w = Inr v) \<longleftrightarrow> shapes_ok X Y w"
  using record_loss_mse_fst [of X Y w, symmetric] loss_mse_ok [of X Y w]
  by (cases "record_loss_mse X Y w") (auto simp add: bindE_def split: prod.splits)

lemma record_loss_mse_Inr:
  assumes "shapes_ok X Y w"
  shows "\<exists>d. tf_sub (map (\<lambda>r. fdot r (col w 0)) (rows X)) Y = Inr d \<and>
     record_loss_mse X Y w = Inr (reduce_mean (tf_square d),
       \<lparr>tp_X = X, tp_Y_hat = map (\<lambda>r. fdot r (col w 0)) (rows X), tp_d = d, tp_errors = tf_square d\<rparr>)"
proof -
  from assms have "length (map (\<lambda>r. fdot r (col w 0)) (rows X)) = length Y \<or> length Y = 1
      \<or> length (map (\<lambda>r. fdot r (col w 0)) (rows X)) = 1"
    by (simp add: shapes_ok_def nrows_def)
  then obtain d where d: "tf_sub (map (\<lambda>r. fdot r (col w 0)) (rows X)) Y = Inr d"
    using tf_sub_ok by blast
  with assms show ?thesis
    by (simp add: record_loss_mse_def matmul_def squeeze_def shapes_ok_def col_def Let_def comp_def)
qed

lemma tape_gradient_Inr:
  assumes "length (tp_Y_hat tp) = nrows (tp_X tp)"
    and "length (tp_errors tp) = length (tp_d tp)"
    and "length (tp_Y_hat tp) = length (tp_d tp) \<or> length (tp_Y_hat tp) = 1"
  shows "\<exists>g. tape_gradient tp = Inr g \<and> ncols g = 1 \<and> nrows g = ncols (tp_X tp)"
  using assms
  by (auto simp add: tape_gradient_def matmul_grad_rhs_def matmul_def transpose_m_def
      squeeze_grad_def sub_grad_lhs_def pow2_grad_def mean_grad_def nrows_def Let_def)

lemma compute_gradients_shape:
  assumes "shapes_ok X Y w"
  shows "\<exists>g. compute_gradients X Y w = Inr g \<and> ncols g = 1 \<and> nrows g = nrows w"
proof -
  from record_loss_mse_Inr [OF assms] obtain d l tp where
    d: "tf_sub (map (\<lambda>r. fdot r (col w 0)) (rows X)) Y = Inr d"
    and tp: "tp = \<lparr>tp_X = X, tp_Y_hat = map (\<lambda>r. fdot r (col w 0)) (rows X), tp_d = d, tp_errors = tf_square d\<rparr>"
    and r: "record_loss_mse X Y w = Inr (l, tp)"
    by blast
  have "length (tp_Y_hat tp) = length (tp_d tp) \<or> length (tp_Y_hat tp) = 1"
    using length_tf_sub [OF d] assms by (auto simp add: tp shapes_ok_def nrows_def)
  then obtain g where "tape_gradient tp = Inr g" "ncols g = 1" "nrows g = ncols (tp_X tp)"
    using tape_gradient_Inr [of tp] by (auto simp add: tp nrows_def tf_square_def)
  with r assms show ?thesis
    by (simp add: compute_gradients_def tp shapes_ok_def)
qed

lemma compute_gradients_ok:
  "(\<exists>g. compute_gradients X Y w = Inr g) \<longleftrightarrow> shapes_ok X Y w"
proof
  assume "\<exists>g. compute_gradients X Y w = Inr g"
  then have "\<exists>v. record_loss_mse X Y w = Inr v"
    by (auto simp add: compute_gradients_def bindE_eq_Inr)
  then show "shapes_ok X Y w" using record_loss_mse_ok by blast
next
  assume "shapes_ok X Y w"
  then show "\<exists>g. compute_gradients X Y w = Inr g"
    using compute_gradients_shape by blast
qed

lemma shape_scale [simp]: "ncols (scale M c) = ncols M" "nrows (scale M c) = nrows M"
  by (simp_all add: scale_def nrows_def)

lemma assign_sub_shape:
  "assign_sub w D = Inr w' \<Longrightarrow> ncols w' = ncols w \<and> nrows w' = nrows w"
  by (auto simp add: assign_sub_def shape_def nrows_def split: if_splits)

lemma gd_step_shape:
  assumes "gd_step X Y lr w = Inr w'"
  shows "ncols w' = ncols w \<and> nrows w' = nrows w"
  using assms by (auto simp add: gd_step_def bindE_eq_Inr dest: assign_sub_shape)

lemma gd_step_ok: "(\<exists>w'. gd_step X Y lr w = Inr w') \<longleftrightarrow> shapes_ok X Y w"
proof
  assume "\<exists>w'. gd_step X Y lr w = Inr w'"
  then have "\<exists>g. compute_gradients X Y w = Inr g"
    by (auto simp add: gd_step_def bindE_eq_Inr)
  then show "shapes_ok X Y w" by (simp add: compute_gradients_ok)
next
  assume ok: "shapes_ok X Y w"
  then obtain g where g: "compute_gradients X Y w = Inr g" "ncols g = 1" "nrows g = nrows w"
    using compute_gradients_shape by blast
  with ok show "\<exists>w'. gd_step X Y lr w = Inr w'"
    by (simp add: gd_step_def assign_sub_def shape_def shapes_ok_def)
qed

lemma shapes_ok_cong:
  "ncols w' = ncols w \<Longrightarrow> nrows w' = nrows w \<Longrightarrow> shapes_ok X Y w' = shapes_ok X Y w"
  by (simp add: shapes_ok_def)

lemma loop_body_W:
  "final_W (loop_body Xf Y lr st step) = gd_step Xf Y lr (st_W st)"
proof (cases "compute_gradients Xf Y (st_W st)")
  case (Inl e)
  then show ?thesis
    by (simp add: final_W_def loop_body_def gd_step_def)
next
  case g: (Inr dW)
  show ?thesis
  proof (cases "assign_sub (st_W st) (scale dW lr)")
    case (Inl e)
    with g show ?thesis
      by (simp add: final_W_def loop_body_def gd_step_def)
  next
    case (Inr w')
    with g have step: "gd_step Xf Y lr (st_W st) = Inr w'"
      by (simp add: gd_step_def)
    then have "shapes_ok Xf Y (st_W st)" using gd_step_ok by blast
    moreover have "ncols w' = ncols (st_W st) \<and> nrows w' = nrows (st_W st)"
      using step by (rule gd_step_shape)
    ultimately have "shapes_ok Xf Y w'" by (simp add: shapes_ok_def)
    then obtain l where "loss_mse Xf Y w' = Inr l" using loss_mse_ok by blast
    with g Inr show ?thesis
      by (simp add: final_W_def loop_body_def gd_step_def)
  qed
qed

lemma funpow_bindE_Inl:
  fixes f :: "'a \<Rightarrow> 'e + 'a"
  shows "((\<lambda>r. bindE r f) ^^ n) (Inl e) = Inl e"
  by (induction n) simp_all

lemma for_loop_W:
  "final_W (for_loop Xf Y lr st rng) =
   ((\<lambda>r. bindE r (gd_step Xf Y lr)) ^^ length rng) (Inr (st_W st))"
proof (induction rng arbitrary: st)
  case Nil
  show ?case by (simp add: final_W_def)
next
  case (Cons step rest)
  show ?case
  proof (cases "loop_body Xf Y lr st step")
    case (Inl e)
    then have "gd_step Xf Y lr (st_W st) = Inl e"
      using loop_body_W [of Xf Y lr st step] by (simp add: final_W_def)
    with Inl show ?thesis
      by (simp add: final_W_def funpow_Suc_right funpow_bindE_Inl del: funpow.simps)
  next
    case (Inr st')
    then have "gd_step Xf Y lr (st_W st) = Inr (st_W st')"
      using loop_body_W [of Xf Y lr st step] by (simp add: final_W_def)
    with Inr Cons.IH [of st'] show ?thesis
      by (simp add: funpow_Suc_right del: funpow.simps)
  qed
qed

lemma length_range_steps: "length (range_steps STEPS) = nat STEPS"
  by (simp add: range_steps_def)

lemma loop_body_ok:
  assumes "shapes_ok Xf Y (st_W st)"
  shows "\<exists>st'. loop_body Xf Y lr st step = Inr st' \<and> shapes_ok Xf Y (st_W st')"
proof -
  from assms obtain w' where w': "gd_step Xf Y lr (st_W st) = Inr w'"
    using gd_step_ok by blast
  then have "final_W (loop_body Xf Y lr st step) = Inr w'"
    by (simp add: loop_body_W)
  then obtain st' where st': "loop_body Xf Y lr st step = Inr st'" "st_W st' = w'"
    by (auto simp add: final_W_def bindE_eq_Inr)
  from w' have "ncols w' = ncols (st_W st) \<and> nrows w' = nrows (st_W st)"
    by (rule gd_step_shape)
  with assms st' show ?thesis by (simp add: shapes_ok_def)
qed

lemma for_loop_ok:
  assumes "shapes_ok Xf Y (st_W st)"
  shows "\<exists>st'. for_loop Xf Y lr st rng = Inr st'"
  using assms
proof (induction rng arbitrary: st)
  case Nil
  show ?case by simp
next
  case (Cons step rest)
  from loop_body_ok [OF Cons.prems] obtain st1 where
    "loop_body Xf Y lr st step = Inr st1" "shapes_ok Xf Y (st_W st1)"
    by blast
  with Cons.IH [of st1] show ?case by simp
qed

section \<open>The shape of the weights\<close>

lemma make_features_shape:
  "\<exists>Xf. make_features X = Inr Xf \<and> ncols Xf = 5 \<and> nrows Xf = length X \<and> wf_matrix Xf"
  by (simp add: make_features_def stack_axis1_def ones_like_def tf_square_def tf_sqrt_def
      tf_exp_def Let_def nrows_def wf_matrix_def list_all_iff)

lemma shape_zeros: "shape (zeros n c) = (n, c)"
  by (simp add: shape_def zeros_def nrows_def)

lemma for_loop_shape:
  assumes "for_loop Xf Y lr st rng = Inr st'"
  shows "shape (st_W st') = shape (st_W st)"
proof -
  have "final_W (for_loop Xf Y lr st rng) = Inr (st_W st')"
    using assms by (simp add: final_W_def)
  then have it: "((\<lambda>r. bindE r (gd_step Xf Y lr)) ^^ length rng) (Inr (st_W st)) = Inr (st_W st')"
    by (simp add: for_loop_W)
  have "((\<lambda>r. bindE r (gd_step Xf Y lr)) ^^ n) (Inr w) = Inr w' \<Longrightarrow> shape w' = shape w"
    for n w w'
  proof (induction n arbitrary: w')
    case 0
    then show ?case by simp
  next
    case (Suc n)
    then obtain v where v: "((\<lambda>r. bindE r (gd_step Xf Y lr)) ^^ n) (Inr w) = Inr v"
      and s: "gd_step Xf Y lr v = Inr w'"
      by (auto simp add: bindE_eq_Inr)
    from Suc.IH [OF v] gd_step_shape [OF s] show ?case by (simp add: shape_def)
  qed
  from this [OF it] show ?thesis .
qed


text \<open>
  C9. The feature map yields five features per input, the weights start as the zero
  tensor of shape \<open>[n_weights, 1]\<close> with \<open>n_weights\<close> the feature count, each
  update returns weights of the shape it was given, and so do the loop over any range
  of steps and the whole training script: the shape of the weights never changes
  after initialization.
\<close>

theorem weight_shape_invariant:
  "(\<exists>Xf. make_features X = Inr Xf \<and> ncols Xf = 5 \<and> shape (zeros (ncols Xf) 1) = (ncols Xf, 1))
   \<and> (gd_step Xf Y LEARNING_RATE w = Inr w' \<longrightarrow> shape w' = shape w)
   \<and> (for_loop Xf Y LEARNING_RATE st rng = Inr st' \<longrightarrow> shape (st_W st') = shape (st_W st))
   \<and> (train X Y STEPS LEARNING_RATE = Inr (st'', mse) \<longrightarrow> shape (st_W st'') = (5, 1))"
proof -
  obtain Xf0 where Xf0: "make_features X = Inr Xf0" "ncols Xf0 = 5"
    using make_features_shape by blast
  have a: "\<exists>Xf. make_features X = Inr Xf \<and> ncols Xf = 5 \<and> shape (zeros (ncols Xf) 1) = (ncols Xf, 1)"
    using Xf0 by (simp add: shape_zeros)
  have b: "gd_step Xf Y LEARNING_RATE w = Inr w' \<longrightarrow> shape w' = shape w"
    using gd_step_shape [of Xf Y LEARNING_RATE w w'] by (simp add: shape_def)
  have c: "for_loop Xf Y LEARNING_RATE st rng = Inr st' \<longrightarrow> shape (st_W st') = shape (st_W st)"
    using for_loop_shape by blast
  have d: "train X Y STEPS LEARNING_RATE = Inr (st'', mse) \<longrightarrow> shape (st_W st'') = (5, 1)"
  proof
    assume "train X Y STEPS LEARNING_RATE = Inr (st'', mse)"
    then have "for_loop Xf0 Y LEARNING_RATE \<lparr>st_W = zeros 5 1, st_steps = [], st_losses = []\<rparr>
        (range_steps STEPS) = Inr st''"
      using Xf0 by (auto simp add: train_def Let_def bindE_eq_Inr)
    from for_loop_shape [OF this] show "shape (st_W st'') = (5, 1)"
      by (simp add: shape_zeros)
  qed
  from a b c d show ?thesis by blast
qed

theorem weight_shape_invariant_witness:
  "gd_step (number_matrix 5 [[1, 0, 0, 0, 1]]) (numbers [1]) (1 / 10) (zeros 5 1)
     = Inr (column (numbers [1 / 5, 0, 0, 0, 1 / 5]))
   \<and> shape (column (numbers [1 / 5, 0, 0, 0, 1 / 5])) = shape (zeros 5 1)
   \<and> for_loop (number_matrix 5 [[1, 0, 0, 0, 1]]) (numbers [1]) (1 / 10)
       \<lparr>st_W = zeros 5 1, st_steps = [], st_losses = []\<rparr> [1]
     = Inr \<lparr>st_W = (column (numbers [1 / 5, 0, 0, 0, 1 / 5])),
            st_steps = [], st_losses = []\<rparr>
   \<and> train (numbers [0]) (numbers [1]) 1 (1 / 10)
     = Inr (\<lparr>st_W = (column (numbers [1 / 5, 0, 0, 0, 1 / 5])),
             st_steps = [], st_losses = []\<rparr>, Num (9 / 25))
   \<and> shape (column (numbers [1 / 5, 0, 0, 0, 1 / 5])) = (5, 1)"
proof -
  have f: "make_features (numbers [0]) = Inr (number_matrix 5 [[1, 0, 0, 0, 1]])"
    by (simp add: make_features_def stack_axis1_def ones_like_def tf_sqrt_def tf_exp_def
        tf_square_def numbers_def number_matrix_def)
  have g: "gd_step (number_matrix 5 [[1, 0, 0, 0, 1]]) (numbers [1]) (1 / 10) (zeros 5 1)
     = Inr (column (numbers [1 / 5, 0, 0, 0, 1 / 5]))"
    by code_simp
  have l: "for_loop (number_matrix 5 [[1, 0, 0, 0, 1]]) (numbers [1]) (1 / 10)
       \<lparr>st_W = zeros 5 1, st_steps = [], st_losses = []\<rparr> [1]
     = Inr \<lparr>st_W = (column (numbers [1 / 5, 0, 0, 0, 1 / 5])),
            st_steps = [], st_losses = []\<rparr>"
    by code_simp
  have r: "range_steps 1 = [1]"
    by code_simp
  have m: "loss_mse (number_matrix 5 [[1, 0, 0, 0, 1]]) (numbers [1])
      (column (numbers [1 / 5, 0, 0, 0, 1 / 5])) = Inr (Num (9 / 25))"
    by code_simp
  have t: "train (numbers [0]) (numbers [1]) 1 (1 / 10)
     = Inr (\<lparr>st_W = (column (numbers [1 / 5, 0, 0, 0, 1 / 5])),
             st_steps = [], st_losses = []\<rparr>, Num (9 / 25))"
    by (simp add: train_def f r l m del: One_nat_def for_loop.simps)
  note inv = weight_shape_invariant
    [of "numbers [0]" "number_matrix 5 [[1, 0, 0, 0, 1]]" "numbers [1]" "1 / 10" "zeros 5 1"
        "column (numbers [1 / 5, 0, 0, 0, 1 / 5])"
        "\<lparr>st_W = zeros 5 1, st_steps = [], st_losses = []\<rparr>" "[1]"
        "\<lparr>st_W = (column (numbers [1 / 5, 0, 0, 0, 1 / 5])),
            st_steps = [], st_losses = []\<rparr>" 1
        "\<lparr>st_W = (column (numbers [1 / 5, 0, 0, 0, 1 / 5])),
            st_steps = [], st_losses = []\<rparr>" "Num (9 / 25)"]
  from inv g
  have a: "shape (column (numbers [1 / 5, 0, 0, 0, 1 / 5])) = shape (zeros 5 1)"
    by blast
  from inv t
  have c: "shape (column (numbers [1 / 5, 0, 0, 0, 1 / 5])) = (5, 1)"
    by (simp del: One_nat_def)
  show ?thesis
    by (intro conjI) (fact g a l t c)+
qed

section \<open>Mismatched dimensions\<close>

lemma loss_mse_mismatch:
  "ncols X \<noteq> nrows w \<Longrightarrow> loss_mse X Y w = Inl (MatMulIncompatible (shape X) (shape w))"
  by (simp add: loss_mse_def predict_def matmul_def)

lemma compute_gradients_mismatch:
  "ncols X \<noteq> nrows w \<Longrightarrow> compute_gradients X Y w = Inl (MatMulIncompatible (shape X) (shape w))"
  by (simp add: compute_gradients_def record_loss_mse_def matmul_def)

text \<open>
  C5. When the number of features (the columns of \<open>X\<close>) differs from the number of
  weights (the rows of \<open>w\<close>), the loss, the gradient and the update all raise the
  matrix-product error that carries both shapes, and a loop started on such weights
  raises it in its first step: no value is returned and nothing is broadcast.
\<close>

theorem dimension_mismatch_raises:
  assumes "ncols X \<noteq> nrows w"
  shows "loss_mse X Y w = Inl (MatMulIncompatible (shape X) (shape w))
    \<and> compute_gradients X Y w = Inl (MatMulIncompatible (shape X) (shape w))
    \<and> gd_step X Y LEARNING_RATE w = Inl (MatMulIncompatible (shape X) (shape w))
    \<and> (st_W st = w \<longrightarrow>
         for_loop X Y LEARNING_RATE st (step # rest) = Inl (MatMulIncompatible (shape X) (shape w)))"
  using assms
  by (simp add: loss_mse_mismatch compute_gradients_mismatch gd_step_def loop_body_def)

theorem dimension_mismatch_raises_witness:
  "ncols (number_matrix 5 [[1, 0, 0, 0, 1]]) \<noteq> nrows (zeros 3 1)
   \<and> loss_mse (number_matrix 5 [[1, 0, 0, 0, 1]]) (numbers [1]) (zeros 3 1)
       = Inl (MatMulIncompatible (1, 5) (3, 1))
   \<and> compute_gradients (number_matrix 5 [[1, 0, 0, 0, 1]]) (numbers [1]) (zeros 3 1)
       = Inl (MatMulIncompatible (1, 5) (3, 1))
   \<and> for_loop (number_matrix 5 [[1, 0, 0, 0, 1]]) (numbers [1]) (1 / 50)
        \<lparr>st_W = zeros 3 1, st_steps = [], st_losses = []\<rparr> [1, 2]
       = Inl (MatMulIncompatible (1, 5) (3, 1))"
proof -
  have h: "ncols (number_matrix 5 [[1, 0, 0, 0, 1]]) \<noteq> nrows (zeros 3 1)"
    by (simp add: zeros_def nrows_def number_matrix_def)
  from dimension_mismatch_raises
    [OF h, of "numbers [1]" "1 / 50" "\<lparr>st_W = zeros 3 1, st_steps = [], st_losses = []\<rparr>" 1 "[2]"] h
  show ?thesis by (simp add: shape_def nrows_def zeros_def number_matrix_def)
qed

section \<open>Determinism\<close>

text \<open>
  C7. Two runs of the loop on the same data and learning rate, from states with the
  same weights and over ranges with the same number of steps, end with the same
  weights (or the same error), whatever else the two states and ranges hold.
\<close>

theorem training_deterministic:
  assumes "st_W st1 = st_W st2" and "length rng1 = length rng2"
  shows "final_W (for_loop Xf Y LEARNING_RATE st1 rng1) = final_W (for_loop Xf Y LEARNING_RATE st2 rng2)"
  using assms by (simp add: for_loop_W)

theorem training_deterministic_witness:
  "st_W \<lparr>st_W = zeros 2 1, st_steps = [], st_losses = []\<rparr>
     = st_W \<lparr>st_W = zeros 2 1, st_steps = [100], st_losses = [NaN]\<rparr>
   \<and> length [1, 2 :: int] = length [99, 100 :: int]
   \<and> final_W (for_loop (number_matrix 2 [[1, 0], [1, 1], [1, 2]]) (numbers [1, 3, 5]) (1 / 10)
         \<lparr>st_W = zeros 2 1, st_steps = [], st_losses = []\<rparr> [1, 2])
     = final_W (for_loop (number_matrix 2 [[1, 0], [1, 1], [1, 2]]) (numbers [1, 3, 5]) (1 / 10)
         \<lparr>st_W = zeros 2 1, st_steps = [100], st_losses = [NaN]\<rparr> [99, 100])"
  using training_deterministic
    [of "\<lparr>st_W = zeros 2 1, st_steps = [], st_losses = []\<rparr>"
        "\<lparr>st_W = zeros 2 1, st_steps = [100], st_losses = [NaN]\<rparr>"
        "[1, 2]" "[99, 100]" "number_matrix 2 [[1, 0], [1, 1], [1, 2]]" "numbers [1, 3, 5]" "1 / 10"]
  by simp

section \<open>The loss is the mean squared error\<close>

lemma map2_mult_commute: "map2 (\<lambda>x y. x * y) a b = map2 (\<lambda>x y. x * y) b (a :: real list)"
proof (induction a arbitrary: b)
  case Nil
  show ?case by simp
next
  case (Cons x xs)
  show ?case by (cases b) (simp_all add: Cons.IH mult.commute)
qed

lemma dot_commute: "dot a b = dot b a"
  using map2_mult_commute [of a b] by (simp add: dot_def)

lemma dot_scale_right: "dot a (map (\<lambda>x. k * x) b) = k * dot a b"
proof -
  have "sum_list (map2 (\<lambda>x y. x * y) a (map (\<lambda>x. k * x) b)) = k * sum_list (map2 (\<lambda>x y. x * y) a b)"
  proof (induction a arbitrary: b)
    case Nil
    show ?case by simp
  next
    case (Cons x xs)
    show ?case by (cases b) (simp_all add: Cons.IH distrib_left mult.left_commute)
  qed
  then show ?thesis by (simp add: dot_def)
qed

lemma squeeze_grad_column: "squeeze_grad gs = column gs"
  by (simp add: squeeze_grad_def column_def)

text \<open>The operations of the loss, on tensors of numbers.\<close>

lemma predict_numbers:
  assumes "length v = n"
  shows "predict (number_matrix n Xs) (column (numbers v)) = Inr (numbers (mat_vec Xs v))"
  using assms
  by (simp add: predict_Inr rows_number_matrix fdot_Num mat_vec_def numbers_def comp_def)

lemma tf_sub_numbers:
  assumes "length a = length b"
  shows "tf_sub (numbers a) (numbers b) = Inr (numbers (map2 (\<lambda>p y. p - y) a b))"
proof -
  have "map2 (\<lambda>x y. fsub x y) (map Num a) (map Num b) = map Num (map2 (\<lambda>p y. p - y) a b)"
    using assms by (induction a b rule: list_induct2) simp_all
  with assms show ?thesis by (simp add: tf_sub_def numbers_def)
qed

lemma tf_square_numbers: "tf_square (numbers d) = numbers (map (\<lambda>x. x ^ 2) d)"
  by (simp add: tf_square_def numbers_def power2_eq_square)

lemma reduce_mean_numbers:
  "reduce_mean (numbers xs) = (if xs = [] then NaN else Num (sum_list xs / real (length xs)))"
  by (simp add: reduce_mean_def fsum_numbers)

lemma loss_mse_eq:
  assumes "length Xs = length Ys" and "length v = n"
  shows "loss_mse (number_matrix n Xs) (numbers Ys) (column (numbers v)) =
    Inr (reduce_mean (numbers (map (\<lambda>x. x ^ 2) (map2 (\<lambda>p y. p - y) (mat_vec Xs v) Ys))))"
proof -
  have "length (mat_vec Xs v) = length Ys" using assms by (simp add: mat_vec_def)
  from tf_sub_numbers [OF this] assms show ?thesis
    by (simp add: loss_mse_def predict_numbers tf_square_numbers Let_def)
qed

lemma sum_squares_pairs:
  "length Xs = length Y \<Longrightarrow>
   sum_list (map (\<lambda>x. x ^ 2) (map2 (\<lambda>p y. p - y) (map (\<lambda>r. dot r c) Xs) Y))
     = sum_list (map (\<lambda>(f, y). (dot c f - y) ^ 2) (zip Xs Y))"
  by (induction Xs Y rule: list_induct2) (simp_all add: dot_commute)

lemma reduce_mean_mse_spec:
  assumes "length Xs = length Y"
  shows "reduce_mean (numbers (map (\<lambda>x. x ^ 2) (map2 (\<lambda>p y. p - y) (mat_vec Xs c) Y)))
    = mse_spec (zip Xs Y) c"
proof (cases "Y = []")
  case True
  with assms show ?thesis by (simp add: reduce_mean_numbers mat_vec_def mse_spec_def)
next
  case False
  with assms have "zip Xs Y \<noteq> []" by (cases Xs; cases Y) simp_all
  with assms False show ?thesis
    using sum_squares_pairs [OF assms, of c]
    by (simp add: reduce_mean_numbers mat_vec_def mse_spec_def)
qed

lemma scalar_prediction:
  "map (\<lambda>v. fadd v (Num w1)) (map (\<lambda>x. fmul (Num w0) x) (numbers X))
     = numbers (mat_vec (map (\<lambda>x. [x, 1]) X) [w0, w1])"
  by (simp add: numbers_def mat_vec_def dot_def comp_def mult.commute)

lemma loss_mse_scalar_eq:
  assumes "length X = length Y"
  shows "loss_mse_scalar (numbers X) (numbers Y) (Num w0) (Num w1) =
    Inr (reduce_mean (numbers (map (\<lambda>x. x ^ 2)
      (map2 (\<lambda>p y. p - y) (mat_vec (map (\<lambda>x. [x, 1]) X) [w0, w1]) Y))))"
proof -
  have "length (mat_vec (map (\<lambda>x. [x, 1]) X) [w0, w1]) = length Y"
    using assms by (simp add: mat_vec_def)
  from tf_sub_numbers [OF this] show ?thesis
    unfolding loss_mse_scalar_def Let_def scalar_prediction
    by (simp add: tf_square_numbers)
qed

text \<open>
  C2. On a dataset of \<open>m\<close> pairs (the rows \<open>Xs\<close> of the feature matrix with the
  targets \<open>Ys\<close>) and weights with one entry per feature, \<open>loss_mse\<close> returns exactly
  the mean over the pairs of \<open>(w\<cdot>features(x) - y)^2\<close>; so does the one-dimensional
  \<open>loss_mse\<close> of the lab, for the features \<open>[x, 1]\<close> and the weights \<open>[w0, w1]\<close>.
  Both are functions of their arguments alone: they read no state and change none.
\<close>

theorem loss_mse_is_mean_squared_error:
  "(length Xs = length Ys \<and> length v = n \<longrightarrow>
      loss_mse (number_matrix n Xs) (numbers Ys) (column (numbers v))
        = Inr (mse_spec (zip Xs Ys) v))
   \<and> (length X1 = length Y1 \<longrightarrow>
      loss_mse_scalar (numbers X1) (numbers Y1) (Num w0) (Num w1)
        = Inr (mse_spec (zip (map (\<lambda>x. [x, 1]) X1) Y1) [w0, w1]))"
proof (intro conjI impI)
  assume a: "length Xs = length Ys \<and> length v = n"
  with reduce_mean_mse_spec [of Xs Ys v]
  show "loss_mse (number_matrix n Xs) (numbers Ys) (column (numbers v))
      = Inr (mse_spec (zip Xs Ys) v)"
    by (simp add: loss_mse_eq)
next
  assume a: "length X1 = length Y1"
  then have "length (map (\<lambda>x. [x, 1]) X1) = length Y1" by simp
  from reduce_mean_mse_spec [OF this] a
  show "loss_mse_scalar (numbers X1) (numbers Y1) (Num w0) (Num w1)
      = Inr (mse_spec (zip (map (\<lambda>x. [x, 1]) X1) Y1) [w0, w1])"
    by (simp add: loss_mse_scalar_eq)
qed

theorem loss_mse_is_mean_squared_error_witness:
  "loss_mse (number_matrix 2 [[1, 0], [1, 1], [1, 2]]) (numbers [1, 3, 5]) (column (numbers [0, 1]))
     = Inr (mse_spec [([1, 0], 1), ([1, 1], 3), ([1, 2], 5)] [0, 1])
   \<and> mse_spec [([1, 0], 1), ([1, 1], 3), ([1, 2], 5)] [0, 1] = Num (14 / 3)
   \<and> loss_mse_scalar (numbers [0, 1, 2]) (numbers [1, 3, 5]) (Num 1) (Num 0)
     = Inr (mse_spec [([0, 1], 1), ([1, 1], 3), ([2, 1], 5)] [1, 0])
   \<and> mse_spec [([0, 1], 1), ([1, 1], 3), ([2, 1], 5)] [1, 0] = Num (14 / 3)"
  using loss_mse_is_mean_squared_error
    [of "[[1, 0], [1, 1], [1, 2]]" "[1, 3, 5]" "[0, 1]" 2 "[0, 1, 2]" "[1, 3, 5]" 1 0]
  by (simp add: mse_spec_def dot_def)

section \<open>The gradient of the tape is the closed form\<close>

lemma transpose_vec_scale:
  "transpose_vec Xs n (map (\<lambda>x. 1 / m * (2 * x)) d) = map (\<lambda>g. 2 / m * g) (transpose_vec Xs n d)"
proof -
  have e: "(\<lambda>x. 1 / m * (2 * x)) = (\<lambda>x. 2 / m * x)" by (simp add: fun_eq_iff)
  show ?thesis
    unfolding transpose_vec_def e by (simp only: dot_scale_right map_map comp_def)
qed

lemma col_number_matrix:
  assumes "list_all (\<lambda>r. length r = n) Xs" and "j < n"
  shows "col (number_matrix n Xs) j = numbers (map (\<lambda>row. row ! j) Xs)"
  using assms by (simp add: col_def rows_number_matrix numbers_def list_all_iff)

lemma transpose_matmul_column:
  assumes "list_all (\<lambda>r. length r = n) Xs" and "length g = length Xs"
  shows "matmul (transpose_m (number_matrix n Xs)) (column (numbers g))
    = Inr (column (numbers (transpose_vec Xs n g)))"
proof -
  have lhs: "matmul (transpose_m (number_matrix n Xs)) (column (numbers g))
      = Inr \<lparr>ncols = 1, rows = map (\<lambda>j. [fdot (col (number_matrix n Xs) j) (numbers g)]) [0..<n]\<rparr>"
    using assms(2) by (simp add: matmul_def transpose_m_def comp_def)
  have rhs: "column (numbers (transpose_vec Xs n g))
      = \<lparr>ncols = 1, rows = map (\<lambda>j. [Num (dot (map (\<lambda>row. row ! j) Xs) g)]) [0..<n]\<rparr>"
    by (simp add: column_def numbers_def transpose_vec_def comp_def)
  have mid: "map (\<lambda>j. [fdot (col (number_matrix n Xs) j) (numbers g)]) [0..<n]
      = map (\<lambda>j. [Num (dot (map (\<lambda>row. row ! j) Xs) g)]) [0..<n]"
    using assms(1) by (simp add: col_number_matrix fdot_numbers)
  show ?thesis by (simp only: lhs rhs mid)
qed

lemma mean_grad_numbers:
  "mean_grad (numbers e) (Num 1) = numbers (map (\<lambda>_. 1 / real (length e)) e)"
  by (cases "e = []") (simp_all add: mean_grad_def numbers_def)

lemma pow2_grad_numbers:
  "pow2_grad (numbers d) (numbers g) = numbers (map2 (\<lambda>x g. g * (2 * x)) d g)"
  by (auto simp add: pow2_grad_def numbers_def zip_map_map)

lemma map2_const_right:
  fixes d :: "real list"
  shows "length d = length e \<Longrightarrow>
    map2 (\<lambda>x g. g * (2 * x)) d (map (\<lambda>_. c) e) = map (\<lambda>x. c * (2 * x)) d"
  by (induction d e rule: list_induct2) simp_all

lemma compute_gradients_eq:
  assumes "list_all (\<lambda>r. length r = n) Xs" and "length Xs = length Ys" and "length v = n"
  shows "compute_gradients (number_matrix n Xs) (numbers Ys) (column (numbers v)) =
    Inr (column (numbers (transpose_vec Xs n
          (map (\<lambda>x. 1 / real (length Ys) * (2 * x))
             (map2 (\<lambda>p y. p - y) (mat_vec Xs v) Ys)))))"
proof -
  let ?X = "number_matrix n Xs"
  let ?w = "column (numbers v)"
  let ?p = "mat_vec Xs v"
  let ?d = "map2 (\<lambda>p y. p - y) ?p Ys"
  let ?e = "map (\<lambda>x. x ^ 2) ?d"
  have ok: "shapes_ok ?X (numbers Ys) ?w" using assms by (simp add: shapes_ok_def)
  have Y_hat: "map (\<lambda>r. fdot r (numbers v)) (rows ?X) = numbers ?p"
    by (simp add: rows_number_matrix fdot_Num mat_vec_def numbers_def comp_def)
  have lp: "length ?p = length Ys" using assms by (simp add: mat_vec_def)
  have sub: "tf_sub (numbers ?p) (numbers Ys) = Inr (numbers ?d)"
    using lp by (rule tf_sub_numbers)
  from record_loss_mse_Inr [OF ok] sub
  have r: "record_loss_mse ?X (numbers Ys) ?w = Inr (reduce_mean (numbers ?e),
       \<lparr>tp_X = ?X, tp_Y_hat = numbers ?p, tp_d = numbers ?d, tp_errors = numbers ?e\<rparr>)"
    by (simp add: Y_hat tf_square_numbers)
  have len: "length ?d = length Ys" using lp by simp
  have gd: "pow2_grad (numbers ?d) (mean_grad (numbers ?e) (Num 1))
      = numbers (map (\<lambda>x. 1 / real (length Ys) * (2 * x)) ?d)"
    unfolding mean_grad_numbers pow2_grad_numbers
    using len map2_const_right [of ?d ?e "1 / real (length Ys)"]
    by simp
  have "tape_gradient \<lparr>tp_X = ?X, tp_Y_hat = numbers ?p, tp_d = numbers ?d, tp_errors = numbers ?e\<rparr>
      = matmul (transpose_m ?X) (column (sub_grad_lhs (numbers ?p)
          (pow2_grad (numbers ?d) (mean_grad (numbers ?e) (Num 1)))))"
    by (simp only: tape_gradient_def Let_def tape.select_convs squeeze_grad_column
        matmul_grad_rhs_def)
  also have "\<dots> = matmul (transpose_m ?X)
      (column (numbers (map (\<lambda>x. 1 / real (length Ys) * (2 * x)) ?d)))"
    unfolding gd sub_grad_lhs_def using len lp by simp
  also have "\<dots> = Inr (column (numbers (transpose_vec Xs n
          (map (\<lambda>x. 1 / real (length Ys) * (2 * x)) ?d))))"
    using assms len by (simp add: transpose_matmul_column)
  finally have "tape_gradient \<lparr>tp_X = ?X, tp_Y_hat = numbers ?p, tp_d = numbers ?d, tp_errors = numbers ?e\<rparr>
      = Inr (column (numbers (transpose_vec Xs n
          (map (\<lambda>x. 1 / real (length Ys) * (2 * x)) ?d))))" .
  with r show ?thesis
    by (simp add: compute_gradients_def)
qed

text \<open>
  C3. On a dataset of \<open>m > 0\<close> samples of numbers, a rectangular feature tensor
  with \<open>n\<close> columns, and weights with one entry per feature, the gradient that the tape computes by walking
  the recorded loss backwards is the closed form \<open>(2/m) * X\<^sup>t(Xw - y)\<close>, as a
  column.
\<close>

theorem autodiff_gradient_is_closed_form:
  assumes "Xs \<noteq> []" and "wf_matrix (number_matrix n Xs)"
    and "length Xs = length Ys" and "length v = n"
  shows "compute_gradients (number_matrix n Xs) (numbers Ys) (column (numbers v))
    = Inr (column (numbers (grad_closed_form Xs Ys v)))"
proof -
  have m: "length Ys = length Xs" using assms by simp
  have wf: "list_all (\<lambda>r. length r = n) Xs" using assms(2) by (simp add: wf_number_matrix)
  have "compute_gradients (number_matrix n Xs) (numbers Ys) (column (numbers v)) =
    Inr (column (numbers (transpose_vec Xs n
          (map (\<lambda>x. 1 / real (length Ys) * (2 * x))
             (map2 (\<lambda>p y. p - y) (mat_vec Xs v) Ys)))))"
    using wf assms(3,4) by (rule compute_gradients_eq)
  also have "\<dots> = Inr (column (numbers (map (\<lambda>g. 2 / real (length Ys) * g)
          (transpose_vec Xs n (map2 (\<lambda>p y. p - y) (mat_vec Xs v) Ys)))))"
    by (simp only: transpose_vec_scale)
  also have "\<dots> = Inr (column (numbers (grad_closed_form Xs Ys v)))"
    using assms(4) by (simp add: grad_closed_form_def m)
  finally show ?thesis .
qed

theorem autodiff_gradient_is_closed_form_witness:
  "[[1, 0], [1, 1], [1, 2 :: real]] \<noteq> []
   \<and> wf_matrix (number_matrix 2 [[1, 0], [1, 1], [1, 2]])
   \<and> compute_gradients (number_matrix 2 [[1, 0], [1, 1], [1, 2]]) (numbers [1, 3, 5])
       (column (numbers [0, 0]))
     = Inr (column (numbers (grad_closed_form [[1, 0], [1, 1], [1, 2]] [1, 3, 5] [0, 0])))
   \<and> grad_closed_form [[1, 0], [1, 1], [1, 2]] [1, 3, 5] [0, 0] = [- 6, - (26 / 3)]"
proof -
  have c: "grad_closed_form [[1, 0], [1, 1], [1, 2]] [1, 3, 5] [0, 0] = [- 6, - (26 / 3)]"
    by code_simp
  from autodiff_gradient_is_closed_form
    [of "[[1, 0], [1, 1], [1, 2]]" 2 "[1, 3, 5]" "[0, 0]"] c
  show ?thesis by (simp add: wf_number_matrix)
qed

section \<open>Gradient descent on the mean squared error\<close>

lemma sq_sum_nonneg: "0 \<le> sq_sum v"
  unfolding sq_sum_def by (rule sum_list_nonneg) auto

lemma sq_sum_Nil [simp]: "sq_sum [] = 0"
  by (simp add: sq_sum_def)

lemma sq_sum_Cons [simp]: "sq_sum (x # xs) = x ^ 2 + sq_sum xs"
  by (simp add: sq_sum_def)

lemma dot_Nil [simp]: "dot [] b = 0" "dot a [] = 0"
  by (simp_all add: dot_def)

lemma dot_Cons [simp]: "dot (x # xs) (y # ys) = x * y + dot xs ys"
  by (simp add: dot_def)

lemma dot_self: "dot v v = sq_sum v"
  by (induction v) (simp_all add: power2_eq_square)

lemma sq_sum_zero_iff: "sq_sum v = 0 \<longleftrightarrow> v = replicate (length v) 0"
proof (induction v)
  case Nil
  show ?case by simp
next
  case (Cons x xs)
  have "x ^ 2 + sq_sum xs = 0 \<longleftrightarrow> x ^ 2 = 0 \<and> sq_sum xs = 0"
    using sq_sum_nonneg [of xs] zero_le_power2 [of x] by linarith
  with Cons show ?case by simp
qed

lemma dot_diff_right:
  "length a = length b \<Longrightarrow> dot r (map2 (\<lambda>x y. x - y) a b) = dot r a - dot r b"
proof (induction a b arbitrary: r rule: list_induct2)
  case Nil
  show ?case by simp
next
  case (Cons x xs y ys)
  show ?case by (cases r) (simp_all add: Cons.IH algebra_simps)
qed

lemma dot_scale_right': "dot r (map (\<lambda>x. x * t) g) = t * dot r g"
proof (induction g arbitrary: r)
  case Nil
  show ?case by simp
next
  case (Cons x xs)
  show ?case by (cases r) (simp_all add: Cons.IH algebra_simps)
qed

lemma dot_scale_left: "dot (map (\<lambda>x. x * t) a) g = t * dot a g"
  by (simp add: dot_commute [of _ g] dot_scale_right')

lemma dot_add_left:
  "length a = length b \<Longrightarrow> dot (map2 (\<lambda>x y. x + y) a b) g = dot a g + dot b g"
proof (induction a b arbitrary: g rule: list_induct2)
  case Nil
  show ?case by simp
next
  case (Cons x xs y ys)
  show ?case by (cases g) (simp_all add: Cons.IH algebra_simps)
qed

lemma cs_step:
  fixes a b S A B :: real
  assumes "S ^ 2 \<le> A * B" and "0 \<le> A" and "0 \<le> B"
  shows "(a * b + S) ^ 2 \<le> (a ^ 2 + A) * (b ^ 2 + B)"
proof -
  have "(2 * (a * b) * S) ^ 2 = 4 * (a * b) ^ 2 * S ^ 2"
    by (simp add: power_mult_distrib)
  also have "\<dots> \<le> 4 * (a * b) ^ 2 * (A * B)"
    using assms(1) by (intro mult_left_mono) simp_all
  also have "\<dots> \<le> (a ^ 2 * B + A * b ^ 2) ^ 2"
  proof -
    have "0 \<le> (a ^ 2 * B - A * b ^ 2) ^ 2" by simp
    then show ?thesis by (simp add: power2_eq_square algebra_simps)
  qed
  finally have sq: "(2 * (a * b) * S) ^ 2 \<le> (a ^ 2 * B + A * b ^ 2) ^ 2" .
  have "0 \<le> a ^ 2 * B + A * b ^ 2" using assms(2,3) by simp
  with sq have cross: "2 * (a * b) * S \<le> a ^ 2 * B + A * b ^ 2"
    by (rule power2_le_imp_le)
  have "(a * b + S) ^ 2 = (a * b) ^ 2 + 2 * (a * b) * S + S ^ 2"
    by (simp add: power2_sum)
  also have "\<dots> \<le> (a * b) ^ 2 + (a ^ 2 * B + A * b ^ 2) + A * B"
    using cross assms(1) by linarith
  also have "\<dots> = (a ^ 2 + A) * (b ^ 2 + B)"
    by (simp add: power_mult_distrib algebra_simps)
  finally show ?thesis .
qed

lemma cauchy_schwarz_dot: "(dot a b) ^ 2 \<le> sq_sum a * sq_sum b"
proof (induction a arbitrary: b)
  case Nil
  show ?case by simp
next
  case (Cons x xs)
  show ?case
  proof (cases b)
    case Nil
    then show ?thesis by simp
  next
    case (Cons y ys)
    from Cons.IH [of ys] sq_sum_nonneg [of xs] sq_sum_nonneg [of ys]
    have "(x * y + dot xs ys) ^ 2 \<le> (x ^ 2 + sq_sum xs) * (y ^ 2 + sq_sum ys)"
      by (rule cs_step)
    with Cons show ?thesis by simp
  qed
qed

lemma sq_sum_mat_vec: "sq_sum (mat_vec Xs g) \<le> frobenius Xs * sq_sum g"
proof (induction Xs)
  case Nil
  show ?case by (simp add: mat_vec_def frobenius_def)
next
  case (Cons r rs)
  have "sq_sum (mat_vec (r # rs) g) = (dot r g) ^ 2 + sq_sum (mat_vec rs g)"
    by (simp add: mat_vec_def)
  also have "\<dots> \<le> sq_sum r * sq_sum g + frobenius rs * sq_sum g"
    using cauchy_schwarz_dot [of r g] Cons.IH by linarith
  also have "\<dots> = frobenius (r # rs) * sq_sum g"
    by (simp add: frobenius_def algebra_simps)
  finally show ?case .
qed

lemma frobenius_nonneg: "0 \<le> frobenius Xs"
  unfolding frobenius_def by (rule sum_list_nonneg) (auto simp add: sq_sum_nonneg)

lemma mat_vec_step:
  assumes "length w = length g"
  shows "mat_vec Xs (map2 (\<lambda>x y. x - y) w (map (\<lambda>x. x * t) g))
    = map2 (\<lambda>p q. p - t * q) (mat_vec Xs w) (mat_vec Xs g)"
proof -
  have "dot r (map2 (\<lambda>x y. x - y) w (map (\<lambda>x. x * t) g)) = dot r w - t * dot r g" for r
    using assms by (simp add: dot_diff_right dot_scale_right')
  then show ?thesis
    by (simp add: mat_vec_def zip_map_map map_zip_map map_zip_map2 zip_same_conv_map comp_def)
qed

lemma residual_step:
  assumes "length w = length g" and "length Xs = length ys"
  shows "residual Xs ys (map2 (\<lambda>x y. x - y) w (map (\<lambda>x. x * t) g))
    = map2 (\<lambda>\<rho> q. \<rho> - t * q) (residual Xs ys w) (mat_vec Xs g)"
proof -
  have gen: "map2 (\<lambda>p y. p - y) (map2 (\<lambda>p q. p - t * q) P Q) ys
      = map2 (\<lambda>\<rho> q. \<rho> - t * q) (map2 (\<lambda>p y. p - y) P ys) Q"
    if "length P = length Q" "length Q = length ys" for P Q :: "real list"
    using that by (induction P Q ys rule: list_induct3) simp_all
  have l1: "length (mat_vec Xs w) = length (mat_vec Xs g)"
    by (simp add: mat_vec_def)
  have l2: "length (mat_vec Xs g) = length ys"
    using assms(2) by (simp add: mat_vec_def)
  show ?thesis
    unfolding residual_def mat_vec_step [OF assms(1)] by (rule gen [OF l1 l2])
qed

lemma sq_sum_step:
  "length R = length Q \<Longrightarrow>
   sq_sum (map2 (\<lambda>\<rho> q. \<rho> - t * q) R Q) = sq_sum R - 2 * t * dot R Q + t ^ 2 * sq_sum Q"
  by (induction R Q rule: list_induct2) (simp_all add: power2_eq_square algebra_simps)

lemma transpose_vec_Cons:
  assumes "length r = n"
  shows "transpose_vec (r # rs) n (\<rho> # \<rho>s)
    = map2 (\<lambda>x y. x + y) (map (\<lambda>x. x * \<rho>) r) (transpose_vec rs n \<rho>s)"
proof (rule nth_equalityI)
  show "length (transpose_vec (r # rs) n (\<rho> # \<rho>s))
      = length (map2 (\<lambda>x y. x + y) (map (\<lambda>x. x * \<rho>) r) (transpose_vec rs n \<rho>s))"
    using assms by (simp add: transpose_vec_def)
next
  fix j assume "j < length (transpose_vec (r # rs) n (\<rho> # \<rho>s))"
  then have "j < n" by (simp add: transpose_vec_def)
  with assms show "transpose_vec (r # rs) n (\<rho> # \<rho>s) ! j
      = map2 (\<lambda>x y. x + y) (map (\<lambda>x. x * \<rho>) r) (transpose_vec rs n \<rho>s) ! j"
    by (simp add: transpose_vec_def)
qed

lemma length_transpose_vec [simp]: "length (transpose_vec Xs n R) = n"
  by (simp add: transpose_vec_def)

lemma dot_replicate_zero: "dot (replicate n 0) g = 0"
  by (induction n arbitrary: g) (simp, case_tac g, simp_all)

lemma transpose_vec_Nil: "transpose_vec [] n R = replicate n 0"
  by (simp add: transpose_vec_def map_replicate_const)

lemma adjoint:
  assumes "list_all (\<lambda>r. length r = n) Xs" and "length R = length Xs"
  shows "dot R (mat_vec Xs g) = dot (transpose_vec Xs n R) g"
  using assms(2,1)
proof (induction R Xs rule: list_induct2)
  case Nil
  show ?case by (simp add: mat_vec_def transpose_vec_Nil dot_replicate_zero)
next
  case (Cons \<rho> \<rho>s r rs)
  then have len: "length r = n" and rest: "list_all (\<lambda>r. length r = n) rs" by simp_all
  have "dot (\<rho> # \<rho>s) (mat_vec (r # rs) g) = \<rho> * dot r g + dot \<rho>s (mat_vec rs g)"
    by (simp add: mat_vec_def)
  also have "\<dots> = \<rho> * dot r g + dot (transpose_vec rs n \<rho>s) g"
    using Cons.IH [OF rest] by simp
  also have "\<dots> = dot (transpose_vec (r # rs) n (\<rho> # \<rho>s)) g"
    using len by (simp add: transpose_vec_Cons dot_add_left dot_scale_left)
  finally show ?case .
qed

text \<open>
  One update along the gradient: the sum of squared residuals after the step, in terms
  of the one before.
\<close>

lemma descent_identity:
  assumes wf: "list_all (\<lambda>r. length r = length w) Xs"
    and len: "length Xs = length ys" and ne: "Xs \<noteq> []"
  defines "g \<equiv> grad_closed_form Xs ys w"
  shows "sq_sum (residual Xs ys (map2 (\<lambda>x y. x - y) w (map (\<lambda>x. x * t) g)))
    = sq_sum (residual Xs ys w) - t * real (length Xs) * sq_sum g + t ^ 2 * sq_sum (mat_vec Xs g)"
proof -
  let ?m = "real (length Xs)"
  let ?R = "residual Xs ys w"
  have m: "0 < ?m" using ne by simp
  have lg: "length g = length w" by (simp add: g_def grad_closed_form_def)
  have lR: "length ?R = length Xs" using len by (simp add: residual_def mat_vec_def)
  have g: "g = map (\<lambda>x. 2 / ?m * x) (transpose_vec Xs (length w) ?R)"
    by (simp add: g_def grad_closed_form_def residual_def)
  have "map (\<lambda>x. x * (?m / 2)) g = transpose_vec Xs (length w) ?R"
    using m by (simp add: g comp_def)
  then have T: "transpose_vec Xs (length w) ?R = map (\<lambda>x. x * (?m / 2)) g" by simp
  have "dot ?R (mat_vec Xs g) = dot (transpose_vec Xs (length w) ?R) g"
    using wf lR by (rule adjoint)
  also have "\<dots> = ?m / 2 * sq_sum g"
    by (simp only: T dot_scale_left dot_self)
  finally have cross: "dot ?R (mat_vec Xs g) = ?m / 2 * sq_sum g" .
  have "sq_sum (residual Xs ys (map2 (\<lambda>x y. x - y) w (map (\<lambda>x. x * t) g)))
      = sq_sum (map2 (\<lambda>\<rho> q. \<rho> - t * q) ?R (mat_vec Xs g))"
    using lg len by (simp add: residual_step)
  also have "\<dots> = sq_sum ?R - 2 * t * dot ?R (mat_vec Xs g) + t ^ 2 * sq_sum (mat_vec Xs g)"
    using lR by (intro sq_sum_step) (simp add: mat_vec_def)
  also have "\<dots> = sq_sum ?R - t * ?m * sq_sum g + t ^ 2 * sq_sum (mat_vec Xs g)"
    by (simp add: cross)
  finally show ?thesis .
qed

lemma lr_bound_pos: "Xs \<noteq> [] \<Longrightarrow> 0 < lr_bound Xs"
  using frobenius_nonneg [of Xs] by (simp add: lr_bound_def add_pos_nonneg)

lemma descent:
  assumes wf: "list_all (\<lambda>r. length r = length w) Xs"
    and len: "length Xs = length ys" and ne: "Xs \<noteq> []"
    and t: "0 \<le> t" "t \<le> lr_bound Xs"
  defines "g \<equiv> grad_closed_form Xs ys w"
  shows "sq_sum (residual Xs ys (map2 (\<lambda>x y. x - y) w (map (\<lambda>x. x * t) g)))
    \<le> sq_sum (residual Xs ys w) - t * sq_sum g * (real (length Xs) / (1 + frobenius Xs))"
proof -
  let ?m = "real (length Xs)"
  let ?F = "frobenius Xs"
  have F: "0 \<le> ?F" by (rule frobenius_nonneg)
  have m: "0 < ?m" using ne by simp
  have tF: "t * ?F \<le> ?m * ?F / (1 + ?F)"
    using t(2) F mult_right_mono [of t "?m / (1 + ?F)" ?F] by (simp add: lr_bound_def)
  have key: "?m / (1 + ?F) \<le> ?m - t * ?F"
  proof -
    have "?m - ?m * ?F / (1 + ?F) = ?m / (1 + ?F)"
      using F by (simp add: field_simps)
    with tF show ?thesis by linarith
  qed
  have "t ^ 2 * sq_sum (mat_vec Xs g) \<le> t ^ 2 * (?F * sq_sum g)"
    by (intro mult_left_mono sq_sum_mat_vec) simp
  then have "sq_sum (residual Xs ys (map2 (\<lambda>x y. x - y) w (map (\<lambda>x. x * t) g)))
      \<le> sq_sum (residual Xs ys w) - t * ?m * sq_sum g + t ^ 2 * (?F * sq_sum g)"
    using descent_identity [OF wf len ne, of t] by (simp add: g_def)
  also have "\<dots> = sq_sum (residual Xs ys w) - t * sq_sum g * (?m - t * ?F)"
    by (simp add: power2_eq_square algebra_simps)
  also have "\<dots> \<le> sq_sum (residual Xs ys w) - t * sq_sum g * (?m / (1 + ?F))"
  proof -
    have "0 \<le> t * sq_sum g" using t(1) sq_sum_nonneg [of g] by simp
    from mult_left_mono [OF key this] show ?thesis by linarith
  qed
  finally show ?thesis .
qed

lemma zeros_column: "zeros n 1 = column (numbers (replicate n 0))"
  by (simp add: zeros_def column_def numbers_def)

lemma compute_gradients_closed_form:
  assumes "Xs \<noteq> []" and "list_all (\<lambda>r. length r = n) Xs"
    and "length Xs = length Ys" and "length v = n"
  shows "compute_gradients (number_matrix n Xs) (numbers Ys) (column (numbers v))
    = Inr (column (numbers (grad_closed_form Xs Ys v)))"
proof -
  have m: "length Ys = length Xs" using assms by simp
  have "compute_gradients (number_matrix n Xs) (numbers Ys) (column (numbers v)) =
    Inr (column (numbers (transpose_vec Xs n
          (map (\<lambda>x. 1 / real (length Ys) * (2 * x))
             (map2 (\<lambda>p y. p - y) (mat_vec Xs v) Ys)))))"
    by (rule compute_gradients_eq) fact+
  also have "\<dots> = Inr (column (numbers (map (\<lambda>g. 2 / real (length Ys) * g)
          (transpose_vec Xs n (map2 (\<lambda>p y. p - y) (mat_vec Xs v) Ys)))))"
    by (simp only: transpose_vec_scale)
  also have "\<dots> = Inr (column (numbers (grad_closed_form Xs Ys v)))"
    using assms(4) by (simp add: grad_closed_form_def m)
  finally show ?thesis .
qed

lemma loss_mse_value:
  assumes "Xs \<noteq> []" and "length Xs = length Ys" and "length v = n"
  shows "loss_mse (number_matrix n Xs) (numbers Ys) (column (numbers v))
    = Inr (Num (sq_sum (residual Xs Ys v) / real (length Ys)))"
proof -
  from assms have "map2 (\<lambda>p y. p - y) (mat_vec Xs v) Ys \<noteq> []"
    by (cases Xs; cases Ys) (simp_all add: mat_vec_def)
  moreover have "length (map2 (\<lambda>p y. p - y) (mat_vec Xs v) Ys) = length Ys"
    using assms by (simp add: mat_vec_def)
  ultimately show ?thesis
    using assms
    by (simp add: loss_mse_eq reduce_mean_numbers sq_sum_def residual_def)
qed

lemma length_grad_closed_form [simp]: "length (grad_closed_form Xs ys v) = length v"
  by (simp add: grad_closed_form_def)

lemma scale_column: "scale (column (numbers g)) c = column (numbers (map (\<lambda>x. x * c) g))"
  by (simp add: scale_def column_def numbers_def comp_def)

lemma assign_sub_column:
  assumes "length v = length h"
  shows "assign_sub (column (numbers v)) (column (numbers h))
    = Inr (column (numbers (map2 (\<lambda>x y. x - y) v h)))"
proof -
  from assms have "map2 (\<lambda>r d. map2 (\<lambda>x y. fsub x y) r d)
        (map (\<lambda>x. [x]) (map Num v)) (map (\<lambda>x. [x]) (map Num h))
      = map (\<lambda>x. [x]) (map Num (map2 (\<lambda>x y. x - y) v h))"
    by (induction v h rule: list_induct2) simp_all
  with assms show ?thesis
    by (simp add: assign_sub_def shape_def nrows_def column_def numbers_def)
qed

lemma gd_step_column:
  assumes "Xs \<noteq> []" and "list_all (\<lambda>r. length r = n) Xs"
    and "length Xs = length Ys" and "length v = n"
  shows "gd_step (number_matrix n Xs) (numbers Ys) lr (column (numbers v))
    = Inr (column (numbers (map2 (\<lambda>x y. x - y) v (map (\<lambda>x. x * lr) (grad_closed_form Xs Ys v)))))"
  using assms
  by (simp add: gd_step_def compute_gradients_closed_form scale_column assign_sub_column)

lemma lossv_step:
  assumes "Xs \<noteq> []" and "list_all (\<lambda>r. length r = n) Xs"
    and "length Xs = length Ys" and "length v = n"
    and "0 \<le> lr" and "lr \<le> lr_bound Xs"
  shows "lossv Xs Ys (map2 (\<lambda>x y. x - y) v (map (\<lambda>x. x * lr) (grad_closed_form Xs Ys v)))
    \<le> lossv Xs Ys v"
proof -
  let ?g = "grad_closed_form Xs Ys v"
  have wf: "list_all (\<lambda>r. length r = length v) Xs"
    using assms(2,4) by simp
  have m: "0 < real (length Ys)" using assms(1,3) by (cases Xs; cases Ys) simp_all
  have "0 \<le> lr * sq_sum ?g * (real (length Xs) / (1 + frobenius Xs))"
    using assms(5) sq_sum_nonneg [of ?g] frobenius_nonneg [of Xs] by simp
  with descent [OF wf assms(3) assms(1) assms(5,6)]
  have "sq_sum (residual Xs Ys (map2 (\<lambda>x y. x - y) v (map (\<lambda>x. x * lr) ?g)))
      \<le> sq_sum (residual Xs Ys v)"
    by linarith
  with m show ?thesis
    by (simp add: lossv_def divide_right_mono)
qed

lemma fle_Num_trans: "fle (Num a) l \<Longrightarrow> b \<le> a \<Longrightarrow> fle (Num b) l"
  by (cases l) (simp_all add: fle_def)

lemma loop_body_inv:
  assumes "Xs \<noteq> []" and "list_all (\<lambda>r. length r = n) Xs" and "length Xs = length Ys"
    and "0 \<le> lr" and "lr \<le> lr_bound Xs"
    and inv: "loop_inv n Xs Ys st"
    and run: "loop_body (number_matrix n Xs) (numbers Ys) lr st step = Inr st'"
  shows "loop_inv n Xs Ys st'"
proof -
  let ?X = "number_matrix n Xs"
  let ?Y = "numbers Ys"
  from inv obtain v where v: "st_W st = column (numbers v)" "length v = n"
    and bound: "\<forall>l\<in>set (st_losses st). fle (Num (lossv Xs Ys v)) l"
    and sorted: "sorted_wrt (\<lambda>a b. fle b a) (st_losses st)"
    by (auto simp add: loop_inv_def)
  let ?v' = "map2 (\<lambda>x y. x - y) v (map (\<lambda>x. x * lr) (grad_closed_form Xs Ys v))"
  have lv': "length ?v' = n" using v(2) by simp
  have loss': "loss_mse ?X ?Y (column (numbers ?v')) = Inr (Num (lossv Xs Ys ?v'))"
    using assms(1,3) lv' by (simp add: loss_mse_value lossv_def)
  have le: "lossv Xs Ys ?v' \<le> lossv Xs Ys v"
    using assms(1,2,3) v(2) assms(4,5) by (rule lossv_step)
  have bound': "\<forall>l\<in>set (st_losses st). fle (Num (lossv Xs Ys ?v')) l"
    using bound le by (auto intro: fle_Num_trans)
  have gs: "compute_gradients ?X ?Y (column (numbers v))
      = Inr (column (numbers (grad_closed_form Xs Ys v)))"
    using assms(1,2,3) v(2) by (rule compute_gradients_closed_form)
  have as: "assign_sub (column (numbers v)) (scale (column (numbers (grad_closed_form Xs Ys v))) lr)
      = Inr (column (numbers ?v'))"
    by (simp add: scale_column assign_sub_column)
  show ?thesis
  proof (cases "step mod 100 = 0")
    case True
    with run v gs as loss' have st': "st' = st\<lparr>st_W := column (numbers ?v'),
        st_steps := st_steps st @ [step],
        st_losses := st_losses st @ [Num (lossv Xs Ys ?v')]\<rparr>"
      by (simp add: loop_body_def)
    show ?thesis
      unfolding loop_inv_def st'
      using lv' bound' sorted by (auto simp add: sorted_wrt_append fle_def)
  next
    case False
    with run v gs as have st': "st' = st\<lparr>st_W := column (numbers ?v')\<rparr>"
      by (simp add: loop_body_def)
    show ?thesis
      unfolding loop_inv_def st'
      using lv' bound' sorted by auto
  qed
qed

lemma for_loop_inv:
  assumes "Xs \<noteq> []" and "list_all (\<lambda>r. length r = n) Xs" and "length Xs = length Ys"
    and "0 \<le> lr" and "lr \<le> lr_bound Xs"
  shows "loop_inv n Xs Ys st \<Longrightarrow>
    for_loop (number_matrix n Xs) (numbers Ys) lr st rng = Inr st' \<Longrightarrow> loop_inv n Xs Ys st'"
proof (induction rng arbitrary: st)
  case Nil
  then show ?case by simp
next
  case (Cons step rest)
  from Cons.prems(2) obtain st1 where
    s1: "loop_body (number_matrix n Xs) (numbers Ys) lr st step = Inr st1"
    and s2: "for_loop (number_matrix n Xs) (numbers Ys) lr st1 rest = Inr st'"
    by (auto simp add: bindE_eq_Inr)
  from loop_body_inv [OF assms Cons.prems(1) s1] have "loop_inv n Xs Ys st1" .
  from Cons.IH [OF this s2] show ?case .
qed

text \<open>
  C6, for datasets of numbers with at least one sample. For a rectangular feature
  tensor of numbers with \<open>m > 0\<close> rows and \<open>n\<close> columns, and as many targets, every learning rate
  between 0 and the positive bound \<open>lr_bound\<close> of the dataset makes each update
  lower the loss or leave it as it is; so the losses that the loop reports, over any
  range of steps and from any starting weights that are numbers, never increase from
  one report to a later one. The loop returns for every learning rate and range.
\<close>

theorem reported_losses_nonincreasing:
  assumes "Xs \<noteq> []" and "wf_matrix (number_matrix n Xs)"
    and "length Xs = length Ys" and "length v = n"
  shows "0 < lr_bound Xs \<and>
    (\<forall>LEARNING_RATE rng st'.
       0 \<le> LEARNING_RATE \<and> LEARNING_RATE \<le> lr_bound Xs \<and>
       for_loop (number_matrix n Xs) (numbers Ys) LEARNING_RATE
         \<lparr>st_W = column (numbers v), st_steps = [], st_losses = []\<rparr> rng = Inr st'
       \<longrightarrow> sorted_wrt (\<lambda>earlier later. fle later earlier) (st_losses st')) \<and>
    (\<forall>LEARNING_RATE rng. \<exists>st'.
       for_loop (number_matrix n Xs) (numbers Ys) LEARNING_RATE
         \<lparr>st_W = column (numbers v), st_steps = [], st_losses = []\<rparr> rng = Inr st')"
proof (intro conjI allI impI)
  show "0 < lr_bound Xs" using assms(1) by (rule lr_bound_pos)
next
  fix lr rng st'
  assume a: "0 \<le> lr \<and> lr \<le> lr_bound Xs \<and>
       for_loop (number_matrix n Xs) (numbers Ys) lr
         \<lparr>st_W = column (numbers v), st_steps = [], st_losses = []\<rparr> rng = Inr st'"
  have "loop_inv n Xs Ys \<lparr>st_W = column (numbers v), st_steps = [], st_losses = []\<rparr>"
    using assms(4) by (auto simp add: loop_inv_def)
  moreover have wf: "list_all (\<lambda>r. length r = n) Xs"
    using assms(2) by (simp add: wf_number_matrix)
  ultimately have "loop_inv n Xs Ys st'"
    using a for_loop_inv [OF assms(1) wf assms(3), of lr _ rng st'] by blast
  then show "sorted_wrt (\<lambda>earlier later. fle later earlier) (st_losses st')"
    by (simp add: loop_inv_def)
next
  fix lr rng
  have "shapes_ok (number_matrix n Xs) (numbers Ys)
      (st_W \<lparr>st_W = column (numbers v), st_steps = [], st_losses = []\<rparr>)"
    using assms(3,4) by (simp add: shapes_ok_def)
  then show "\<exists>st'. for_loop (number_matrix n Xs) (numbers Ys) lr
         \<lparr>st_W = column (numbers v), st_steps = [], st_losses = []\<rparr> rng = Inr st'"
    by (rule for_loop_ok)
qed

text \<open>Datasets on which every loss is NaN: the loop then reports NaN only.\<close>

lemma loop_body_nan:
  assumes nan: "\<And>w l. shape w = s \<Longrightarrow> loss_mse X Y w = Inr l \<Longrightarrow> l = NaN"
    and s: "shape (st_W st) = s"
    and run: "loop_body X Y lr st step = Inr st'"
  shows "st_losses st' = st_losses st @ (if step mod 100 = 0 then [NaN] else [])
    \<and> shape (st_W st') = s"
proof -
  from run obtain dW w' where
    g: "compute_gradients X Y (st_W st) = Inr dW"
    and a: "assign_sub (st_W st) (scale dW lr) = Inr w'"
    and r: "(if step mod 100 = 0
         then bindE (loss_mse X Y w') (\<lambda>loss.
              Inr (st\<lparr>st_W := w', st_steps := st_steps st @ [step], st_losses := st_losses st @ [loss]\<rparr>))
         else Inr (st\<lparr>st_W := w'\<rparr>)) = Inr st'"
    by (auto simp add: loop_body_def bindE_eq_Inr)
  from assign_sub_shape [OF a] s have s': "shape w' = s"
    by (simp add: shape_def)
  show ?thesis
  proof (cases "step mod 100 = 0")
    case True
    with r obtain loss where l: "loss_mse X Y w' = Inr loss"
      and st': "st' = st\<lparr>st_W := w', st_steps := st_steps st @ [step], st_losses := st_losses st @ [loss]\<rparr>"
      by (auto simp add: bindE_eq_Inr)
    from nan [OF s' l] st' True s' show ?thesis by simp
  next
    case False
    with r s' show ?thesis by auto
  qed
qed

lemma for_loop_nan:
  assumes nan: "\<And>w l. shape w = s \<Longrightarrow> loss_mse X Y w = Inr l \<Longrightarrow> l = NaN"
  shows "shape (st_W st) = s \<Longrightarrow> for_loop X Y lr st rng = Inr st' \<Longrightarrow>
    st_losses st' = st_losses st @ replicate (length (filter (\<lambda>s. s mod 100 = 0) rng)) NaN
    \<and> shape (st_W st') = s"
proof (induction rng arbitrary: st)
  case Nil
  then show ?case by simp
next
  case (Cons step rest)
  from Cons.prems(2) obtain st1 where s1: "loop_body X Y lr st step = Inr st1"
    and s2: "for_loop X Y lr st1 rest = Inr st'"
    by (auto simp add: bindE_eq_Inr)
  from loop_body_nan [OF nan Cons.prems(1) s1]
  have l1: "st_losses st1 = st_losses st @ (if step mod 100 = 0 then [NaN] else [])"
    and sh1: "shape (st_W st1) = s"
    by (simp_all add: nan)
  from Cons.IH [OF sh1 s2] l1 show ?case
    by (simp add: replicate_app_Cons_same)
qed

lemma loss_mse_empty:
  assumes "rows X = []" and "loss_mse X [] w = Inr l"
  shows "l = NaN"
proof -
  from assms(2) obtain Y_hat where p: "predict X w = Inr Y_hat"
    and r: "bindE (tf_sub Y_hat []) (\<lambda>d. Inr (reduce_mean (tf_square d))) = Inr l"
    by (auto simp add: loss_mse_def bindE_eq_Inr Let_def)
  from p obtain P where "matmul X w = Inr P" "squeeze P = Inr Y_hat"
    by (auto simp add: predict_def bindE_eq_Inr)
  with assms(1) have "Y_hat = []"
    by (auto simp add: matmul_def squeeze_def col_def split: if_splits)
  with r show ?thesis
    by (simp add: tf_sub_def tf_square_def reduce_mean_def)
qed

lemma fadd_NaN [simp]: "fadd x NaN = NaN" "fadd NaN x = NaN"
  by (cases x; simp)+

lemma fmul_NaN [simp]: "fmul x NaN = NaN" "fmul NaN x = NaN"
  by (cases x; simp)+

lemma fsub_NaN [simp]: "fsub x NaN = NaN" "fsub NaN x = NaN"
  by (cases x; simp)+

lemma fdiv_NaN [simp]: "fdiv x NaN = NaN" "fdiv NaN x = NaN"
  by (cases x; simp)+

lemma length_5:
  assumes "length xs = 5"
  shows "\<exists>a b c d e. xs = [a, b, c, d, e]"
proof -
  from assms obtain a r1 where 1: "xs = a # r1" "length r1 = 4" by (cases xs) auto
  then obtain b r2 where 2: "r1 = b # r2" "length r2 = 3" by (cases r1) auto
  then obtain c r3 where 3: "r2 = c # r3" "length r3 = 2" by (cases r2) auto
  then obtain d r4 where 4: "r3 = d # r4" "length r4 = 1" by (cases r3) auto
  then obtain e where 5: "r4 = [e]" by (cases r4) auto
  from 1 2 3 4 5 show ?thesis by simp
qed

text \<open>
  The features of the input \<open>-1\<close>: the fourth, \<^verbatim>\<open>tf.sqrt(-1.)\<close>, is NaN, and with it
  every prediction and every loss.
\<close>

lemma make_features_negative:
  "make_features (numbers [- 1])
     = Inr \<lparr>ncols = 5, rows = [[Num 1, Num (- 1), Num 1, NaN, Num (exp (- 1))]]\<rparr>"
  by (simp add: make_features_def stack_axis1_def ones_like_def tf_square_def tf_sqrt_def
      tf_exp_def numbers_def Let_def)

lemma loss_mse_nan_feature:
  assumes "shape w = (5, 1)"
    and "loss_mse \<lparr>ncols = 5, rows = [[Num 1, Num (- 1), Num 1, NaN, Num (exp (- 1))]]\<rparr>
           (numbers [1]) w = Inr l"
  shows "l = NaN"
proof -
  from assms(1) have n: "ncols w = 1" "nrows w = 5" by (simp_all add: shape_def)
  then have "length (col w 0) = 5" by simp
  from length_5 [OF this] obtain a b c d e where c: "col w 0 = [a, b, c, d, e]" by blast
  have "map (\<lambda>r. fdot r (col w 0)) [[Num 1, Num (- 1), Num 1, NaN, Num (exp (- 1))]] = [NaN]"
    unfolding c by (simp add: fdot_def)
  with n have p: "predict \<lparr>ncols = 5, rows = [[Num 1, Num (- 1), Num 1, NaN, Num (exp (- 1))]]\<rparr> w
      = Inr [NaN]"
    by (simp add: predict_Inr)
  have "tf_sub [NaN] (numbers [1]) = Inr [NaN]"
    by (simp add: tf_sub_def numbers_def)
  with assms(2) p have "l = reduce_mean (tf_square [NaN])"
    by (simp add: loss_mse_def Let_def)
  then show ?thesis by (simp add: tf_square_def reduce_mean_def)
qed

text \<open>
  On the dataset with no sample, whatever the learning rate, the loop of 200 steps
  reports NaN twice, and NaN is not at most NaN. The same happens on the dataset of
  the one sample \<open>(-1, 1)\<close>, all numbers: its fourth feature is the square root of
  \<open>-1\<close>.
\<close>

theorem reported_losses_of_empty_dataset:
  "(\<forall>LEARNING_RATE. \<exists>st'.
     for_loop \<lparr>ncols = 5, rows = []\<rparr> [] LEARNING_RATE
       \<lparr>st_W = zeros 5 1, st_steps = [], st_losses = []\<rparr> (range_steps 200) = Inr st'
     \<and> st_losses st' = [NaN, NaN]
     \<and> \<not> sorted_wrt (\<lambda>earlier later. fle later earlier) (st_losses st'))
   \<and> (\<forall>LEARNING_RATE. \<exists>st'.
     train (numbers [- 1]) (numbers [1]) 200 LEARNING_RATE = Inr (st', NaN)
     \<and> st_losses st' = [NaN, NaN]
     \<and> \<not> sorted_wrt (\<lambda>earlier later. fle later earlier) (st_losses st'))"
proof (intro conjI allI)
  fix lr
  have n: "length (filter (\<lambda>s. s mod 100 = 0) (range_steps 200)) = 2"
    by code_simp
  let ?X = "\<lparr>ncols = 5, rows = []\<rparr>"
  have "shapes_ok ?X [] (st_W \<lparr>st_W = zeros 5 1, st_steps = [], st_losses = []\<rparr>)"
    by (simp add: shapes_ok_def zeros_def nrows_def)
  from for_loop_ok [OF this] obtain st' where
    run: "for_loop ?X [] lr
       \<lparr>st_W = zeros 5 1, st_steps = [], st_losses = []\<rparr> (range_steps 200) = Inr st'"
    by blast
  have nan: "\<And>w l. shape w = (5, 1) \<Longrightarrow> loss_mse ?X [] w = Inr l \<Longrightarrow> l = NaN"
    by (rule loss_mse_empty) simp_all
  have "shape (st_W \<lparr>st_W = zeros 5 1, st_steps = [], st_losses = []\<rparr>) = (5, 1)"
    by (simp add: shape_zeros)
  from for_loop_nan [OF nan this run] n
  have "st_losses st' = [NaN, NaN]"
    by (simp add: numeral_2_eq_2)
  with run show "\<exists>st'. for_loop ?X [] lr
       \<lparr>st_W = zeros 5 1, st_steps = [], st_losses = []\<rparr> (range_steps 200) = Inr st'
     \<and> st_losses st' = [NaN, NaN]
     \<and> \<not> sorted_wrt (\<lambda>earlier later. fle later earlier) (st_losses st')"
    by (simp add: fle_def)
next
  fix lr
  have n: "length (filter (\<lambda>s. s mod 100 = 0) (range_steps 200)) = 2"
    by code_simp
  let ?X = "\<lparr>ncols = 5, rows = [[Num 1, Num (- 1), Num 1, NaN, Num (exp (- 1))]]\<rparr>"
  have ok: "shapes_ok ?X (numbers [1]) (st_W \<lparr>st_W = zeros 5 1, st_steps = [], st_losses = []\<rparr>)"
    by (simp add: shapes_ok_def zeros_def nrows_def)
  from for_loop_ok [OF this] obtain st' where
    run: "for_loop ?X (numbers [1]) lr
       \<lparr>st_W = zeros 5 1, st_steps = [], st_losses = []\<rparr> (range_steps 200) = Inr st'"
    by blast
  have nan: "\<And>w l. shape w = (5, 1) \<Longrightarrow> loss_mse ?X (numbers [1]) w = Inr l \<Longrightarrow> l = NaN"
    by (rule loss_mse_nan_feature)
  have "shape (st_W \<lparr>st_W = zeros 5 1, st_steps = [], st_losses = []\<rparr>) = (5, 1)"
    by (simp add: shape_zeros)
  from for_loop_nan [OF nan this run] n
  have both: "st_losses st' = [NaN, NaN] \<and> shape (st_W st') = (5, 1)"
    by (simp add: numeral_2_eq_2)
  then have "shapes_ok ?X (numbers [1]) (st_W st')"
    by (simp add: shapes_ok_def shape_def nrows_def)
  then obtain l where l: "loss_mse ?X (numbers [1]) (st_W st') = Inr l"
    using loss_mse_ok by blast
  with both nan have "l = NaN" by blast
  with l run have "train (numbers [- 1]) (numbers [1]) 200 lr = Inr (st', NaN)"
    by (simp add: train_def make_features_negative del: for_loop.simps)
  with both show "\<exists>st'. train (numbers [- 1]) (numbers [1]) 200 lr = Inr (st', NaN)
     \<and> st_losses st' = [NaN, NaN]
     \<and> \<not> sorted_wrt (\<lambda>earlier later. fle later earlier) (st_losses st')"
    by (simp add: fle_def)
qed

lemma transpose_vec_diff:
  assumes "length P = length Y"
  shows "transpose_vec Xs n (map2 (\<lambda>p y. p - y) P Y)
    = map2 (\<lambda>a b. a - b) (transpose_vec Xs n P) (transpose_vec Xs n Y)"
  using assms
  by (intro nth_equalityI) (simp_all add: transpose_vec_def dot_diff_right)

lemma map2_diff_self: "map2 (\<lambda>a b. a - b) T T = replicate (length T) (0::real)"
  by (induction T) simp_all

text \<open>
  C8. On a dataset of numbers with at least one sample, at weights that minimize the
  loss among all weight vectors of numbers of their length, the gradient computed by
  the tape is the zero column; and so it is at weights that solve the normal equations
  \<open>X\<^sup>tXw = X\<^sup>ty\<close>, which the closed-form least-squares solution does.
\<close>

theorem gradient_zero_at_minimizer:
  assumes "Xs \<noteq> []" and "wf_matrix (number_matrix n Xs)"
    and "length Xs = length Ys" and "length v = n"
  shows "((\<forall>v'. length v' = n \<longrightarrow>
            (\<exists>l l'. loss_mse (number_matrix n Xs) (numbers Ys) (column (numbers v)) = Inr l
               \<and> loss_mse (number_matrix n Xs) (numbers Ys) (column (numbers v')) = Inr l'
               \<and> fle l l'))
          \<longrightarrow> compute_gradients (number_matrix n Xs) (numbers Ys) (column (numbers v))
                = Inr (zeros n 1))
    \<and> (transpose_vec Xs n (mat_vec Xs v) = transpose_vec Xs n Ys
          \<longrightarrow> compute_gradients (number_matrix n Xs) (numbers Ys) (column (numbers v))
                = Inr (zeros n 1))"
proof (intro conjI impI)
  let ?X = "number_matrix n Xs"
  let ?Y = "numbers Ys"
  let ?g = "grad_closed_form Xs Ys v"
  let ?t = "lr_bound Xs"
  let ?v' = "map2 (\<lambda>x y. x - y) v (map (\<lambda>x. x * ?t) ?g)"
  have rect: "list_all (\<lambda>r. length r = n) Xs"
    using assms(2) by (simp add: wf_number_matrix)
  have cg: "compute_gradients ?X ?Y (column (numbers v)) = Inr (column (numbers ?g))"
    using assms(1) rect assms(3,4) by (rule compute_gradients_closed_form)
  have m: "0 < real (length Ys)" using assms(1,3) by (cases Xs; cases Ys) simp_all
  {
    assume min: "\<forall>v'. length v' = n \<longrightarrow>
            (\<exists>l l'. loss_mse ?X ?Y (column (numbers v)) = Inr l
               \<and> loss_mse ?X ?Y (column (numbers v')) = Inr l' \<and> fle l l')"
    have "length ?v' = n" using assms(4) by simp
    with min obtain l l' where l: "loss_mse ?X ?Y (column (numbers v)) = Inr l"
      and l': "loss_mse ?X ?Y (column (numbers ?v')) = Inr l'" and le: "fle l l'"
      by blast
    have "loss_mse ?X ?Y (column (numbers v)) = Inr (Num (sq_sum (residual Xs Ys v) / real (length Ys)))"
      using assms(1,3,4) by (rule loss_mse_value)
    moreover have "loss_mse ?X ?Y (column (numbers ?v'))
        = Inr (Num (sq_sum (residual Xs Ys ?v') / real (length Ys)))"
      using assms(1,3,4) by (simp add: loss_mse_value)
    ultimately have "sq_sum (residual Xs Ys v) / real (length Ys)
        \<le> sq_sum (residual Xs Ys ?v') / real (length Ys)"
      using l l' le by (simp add: fle_def)
    with m have ge: "sq_sum (residual Xs Ys v) \<le> sq_sum (residual Xs Ys ?v')"
      by (simp add: divide_le_cancel)
    have wf: "list_all (\<lambda>r. length r = length v) Xs"
      using rect assms(4) by simp
    have tpos: "0 < ?t" using assms(1) by (rule lr_bound_pos)
    have "sq_sum (residual Xs Ys ?v')
        \<le> sq_sum (residual Xs Ys v) - ?t * sq_sum ?g * (real (length Xs) / (1 + frobenius Xs))"
      using tpos by (intro descent [OF wf assms(3) assms(1)]) simp_all
    with ge have nonpos: "?t * sq_sum ?g * ?t \<le> 0"
      by (simp add: lr_bound_def)
    have "sq_sum ?g = 0"
    proof (rule ccontr)
      assume "sq_sum ?g \<noteq> 0"
      with sq_sum_nonneg [of ?g] have "0 < sq_sum ?g" by linarith
      with tpos have "0 < ?t * sq_sum ?g * ?t" by simp
      with nonpos show False by linarith
    qed
    then have "?g = replicate n 0"
      using assms(4) by (simp add: sq_sum_zero_iff)
    with cg show "compute_gradients ?X ?Y (column (numbers v)) = Inr (zeros n 1)"
      by (simp add: zeros_column del: One_nat_def)
  }
  {
    assume ne: "transpose_vec Xs n (mat_vec Xs v) = transpose_vec Xs n Ys"
    have "length (mat_vec Xs v) = length Ys" using assms(3) by (simp add: mat_vec_def)
    from transpose_vec_diff [OF this, of Xs n] ne
    have "transpose_vec Xs n (map2 (\<lambda>p y. p - y) (mat_vec Xs v) Ys) = replicate n 0"
      by (simp add: map2_diff_self)
    then have "?g = replicate n 0"
      using assms(4) by (simp add: grad_closed_form_def)
    with cg show "compute_gradients ?X ?Y (column (numbers v)) = Inr (zeros n 1)"
      by (simp add: zeros_column del: One_nat_def)
  }
qed

theorem gradient_zero_at_minimizer_witness:
  "loss_mse (number_matrix 2 [[1, 0], [1, 1], [1, 2]]) (numbers [1, 3, 5]) (column (numbers [1, 2]))
     = Inr (Num 0)
   \<and> transpose_vec [[1, 0], [1, 1], [1, 2]] 2 (mat_vec [[1, 0], [1, 1], [1, 2]] [1, 2])
       = transpose_vec [[1, 0], [1, 1], [1, 2]] 2 [1, 3, 5]
   \<and> compute_gradients (number_matrix 2 [[1, 0], [1, 1], [1, 2]]) (numbers [1, 3, 5])
       (column (numbers [1, 2]))
       = Inr (zeros 2 1)"
proof -
  let ?Xs = "[[1, 0], [1, 1], [1, 2 :: real]]"
  let ?X = "number_matrix 2 ?Xs"
  let ?Ys = "[1, 3, 5 :: real]"
  let ?Y = "numbers ?Ys"
  have ne: "?Xs \<noteq> []" by simp
  have wf: "wf_matrix ?X" by (simp add: wf_number_matrix)
  have len: "length ?Xs = length ?Ys" by simp
  have lv: "length [1, 2 :: real] = 2" by simp
  have l0: "loss_mse ?X ?Y (column (numbers [1, 2])) = Inr (Num 0)"
    by code_simp
  have minimal: "\<forall>v'. length v' = 2 \<longrightarrow>
      (\<exists>l l'. loss_mse ?X ?Y (column (numbers [1, 2])) = Inr l
         \<and> loss_mse ?X ?Y (column (numbers v')) = Inr l' \<and> fle l l')"
  proof (intro allI impI)
    fix v' :: "real list" assume s: "length v' = 2"
    have "loss_mse ?X ?Y (column (numbers v'))
        = Inr (Num (sq_sum (residual ?Xs ?Ys v') / real (length ?Ys)))"
      using ne len s by (rule loss_mse_value)
    moreover have "0 \<le> sq_sum (residual ?Xs ?Ys v') / real (length ?Ys)"
      using sq_sum_nonneg [of "residual ?Xs ?Ys v'"] by simp
    ultimately show "\<exists>l l'. loss_mse ?X ?Y (column (numbers [1, 2])) = Inr l
         \<and> loss_mse ?X ?Y (column (numbers v')) = Inr l' \<and> fle l l'"
      using l0 by (simp add: fle_def)
  qed
  have normal: "transpose_vec [[1, 0], [1, 1], [1, 2]] 2 (mat_vec [[1, 0], [1, 1], [1, 2]] [1, 2])
       = transpose_vec [[1, 0], [1, 1], [1, 2]] 2 [1, 3, 5]"
    by code_simp
  note th = gradient_zero_at_minimizer [OF ne wf len lv]
  from th minimal
  have g1: "compute_gradients ?X ?Y (column (numbers [1, 2])) = Inr (zeros 2 1)"
    by blast
  from th normal
  have g2: "compute_gradients ?X ?Y (column (numbers [1, 2])) = Inr (zeros 2 1)"
    by blast
  show ?thesis
    by (intro conjI) (fact l0 normal g1)+
qed

theorem reported_losses_nonincreasing_witness:
  "lr_bound [[1, 0], [1, 1], [1, 2]] = 1 / 3
   \<and> for_loop (number_matrix 2 [[1, 0], [1, 1], [1, 2]]) (numbers [1, 3, 5]) (1 / 10)
       \<lparr>st_W = column (numbers [0, 0]), st_steps = [], st_losses = []\<rparr> [100, 200]
     = Inr \<lparr>st_W = column (numbers [68 / 75, 298 / 225]), st_steps = [100, 200],
            st_losses = [Num (433 / 135), Num (27199 / 30375)]\<rparr>
   \<and> sorted_wrt (\<lambda>earlier later. fle later earlier) [Num (433 / 135), Num (27199 / 30375)]"
proof -
  let ?Xs = "[[1, 0], [1, 1], [1, 2 :: real]]"
  let ?X = "number_matrix 2 ?Xs"
  let ?Ys = "[1, 3, 5 :: real]"
  let ?Y = "numbers ?Ys"
  have ne: "?Xs \<noteq> []" by simp
  have wf: "wf_matrix ?X" by (simp add: wf_number_matrix)
  have len: "length ?Xs = length ?Ys" by simp
  have lv: "length [0, 0 :: real] = 2" by simp
  have b: "lr_bound [[1, 0], [1, 1], [1, 2]] = 1 / 3"
    by code_simp
  have small: "(0::real) \<le> 1 / 10 \<and> 1 / 10 \<le> lr_bound ?Xs"
    by code_simp
  have run: "for_loop ?X ?Y (1 / 10)
       \<lparr>st_W = column (numbers [0, 0]), st_steps = [], st_losses = []\<rparr> [100, 200]
     = Inr \<lparr>st_W = column (numbers [68 / 75, 298 / 225]), st_steps = [100, 200],
            st_losses = [Num (433 / 135), Num (27199 / 30375)]\<rparr>"
    by code_simp
  note th = reported_losses_nonincreasing [OF ne wf len lv, THEN conjunct2, THEN conjunct1,
      rule_format,
      of "1 / 10" "[100, 200]"
         "\<lparr>st_W = column (numbers [68 / 75, 298 / 225]), st_steps = [100, 200],
            st_losses = [Num (433 / 135), Num (27199 / 30375)]\<rparr>"]
  have "sorted_wrt (\<lambda>earlier later. fle later earlier)
      (st_losses \<lparr>st_W = column (numbers [68 / 75, 298 / 225]), st_steps = [100, 200],
            st_losses = [Num (433 / 135), Num (27199 / 30375)]\<rparr>)"
  proof (rule th, intro conjI)
    show "(0::real) \<le> 1 / 10" by simp
    show "1 / 10 \<le> lr_bound ?Xs" using small by (rule conjunct2)
    show "for_loop ?X ?Y (1 / 10)
       \<lparr>st_W = column (numbers [0, 0]), st_steps = [], st_losses = []\<rparr> [100, 200]
     = Inr \<lparr>st_W = column (numbers [68 / 75, 298 / 225]), st_steps = [100, 200],
            st_losses = [Num (433 / 135), Num (27199 / 30375)]\<rparr>"
      by (fact run)
  qed
  then have s: "sorted_wrt (\<lambda>earlier later. fle later earlier) [Num (433 / 135), Num (27199 / 30375)]"
    by (simp only: train_state.simps)
  show ?thesis
    by (intro conjI) (fact b run s)+
qed

section \<open>Convergence on the toy dataset\<close>

lemma X_toy_list: "X_toy = [0, 1, 2, 3, 4, 5, 6, 7, 8, 9]"
  by (simp add: X_toy_def upt_rec)

lemma Y_toy_list: "Y_toy = [10, 12, 14, 16, 18, 20, 22, 24, 26, 28]"
  by (simp add: Y_toy_def X_toy_list)

lemma grad_toy:
  "compute_gradients_scalar X_toy Y_toy w0 w1
    = (57 * (w0 - 2) + 9 * (w1 - 10), 9 * (w0 - 2) + 2 * (w1 - 10))"
  by (simp add: compute_gradients_scalar_def grad_closed_form_def transpose_vec_def mat_vec_def
      X_toy_list Y_toy_list upt_rec field_simps)

lemma loss_toy:
  "loss_mse_scalar (numbers X_toy) (numbers Y_toy) (Num w0) (Num w1)
    = Inr (Num (57 / 2 * (w0 - 2) ^ 2 + 9 * (w0 - 2) * (w1 - 10) + (w1 - 10) ^ 2))"
  by (simp add: loss_mse_scalar_def tf_sub_def tf_square_def reduce_mean_def numbers_def
      X_toy_list Y_toy_list power2_eq_square field_simps)

lemma contraction:
  fixes a b :: real
  shows "(a - (57 * a + 9 * b) * (1 / 50)) ^ 2 + (b - (9 * a + 2 * b) * (1 / 50)) ^ 2
    \<le> 49 / 50 * (a ^ 2 + b ^ 2)"
proof -
  have "0 \<le> 2320 * (a + 369 / 2320 * b) ^ 2 + (65 - 136161 / 2320) * b ^ 2"
    by (intro add_nonneg_nonneg mult_nonneg_nonneg) simp_all
  then show ?thesis
    by (simp add: power2_eq_square field_simps)
qed

lemma lab_loop_body_toy:
  "\<exists>st'. lab_loop_body X_toy Y_toy (1 / 50) st step = Inr st'
     \<and> toy_error st' \<le> 49 / 50 * toy_error st"
proof -
  let ?a = "lab_w0 st - 2" and ?b = "lab_w1 st - 10"
  let ?w0 = "lab_w0 st - (57 * ?a + 9 * ?b) * (1 / 50)"
  let ?w1 = "lab_w1 st - (9 * ?a + 2 * ?b) * (1 / 50)"
  have e: "(?w0 - 2) ^ 2 + (?w1 - 10) ^ 2 \<le> 49 / 50 * (?a ^ 2 + ?b ^ 2)"
    using contraction [of ?a ?b] by (simp add: algebra_simps)
  show ?thesis
  proof (cases "step mod 100 = 0")
    case True
    then have "lab_loop_body X_toy Y_toy (1 / 50) st step
        = Inr (st\<lparr>lab_w0 := ?w0, lab_w1 := ?w1,
                  lab_printed := lab_printed st @
                    [(step, Num (57 / 2 * (?w0 - 2) ^ 2 + 9 * (?w0 - 2) * (?w1 - 10) + (?w1 - 10) ^ 2),
                      ?w0, ?w1)]\<rparr>)"
      by (simp add: lab_loop_body_def grad_toy loss_toy Let_def)
    with e show ?thesis by (simp add: toy_error_def)
  next
    case False
    then have "lab_loop_body X_toy Y_toy (1 / 50) st step = Inr (st\<lparr>lab_w0 := ?w0, lab_w1 := ?w1\<rparr>)"
      by (simp add: lab_loop_body_def grad_toy Let_def)
    with e show ?thesis by (simp add: toy_error_def)
  qed
qed

lemma lab_for_loop_toy:
  "\<exists>st'. lab_for_loop X_toy Y_toy (1 / 50) st rng = Inr st'
     \<and> toy_error st' \<le> (49 / 50) ^ length rng * toy_error st"
proof (induction rng arbitrary: st)
  case Nil
  show ?case by simp
next
  case (Cons step rest)
  from lab_loop_body_toy [of st step] obtain st1 where
    s1: "lab_loop_body X_toy Y_toy (1 / 50) st step = Inr st1"
    and e1: "toy_error st1 \<le> 49 / 50 * toy_error st"
    by blast
  from Cons.IH [of st1] obtain st' where
    s2: "lab_for_loop X_toy Y_toy (1 / 50) st1 rest = Inr st'"
    and e2: "toy_error st' \<le> (49 / 50) ^ length rest * toy_error st1"
    by blast
  have h: "(49 / 50 :: real) ^ length rest * toy_error st1
      \<le> (49 / 50) ^ length rest * (49 / 50 * toy_error st)"
    using e1 by (intro mult_left_mono) simp_all
  have "toy_error st' \<le> (49 / 50) ^ length rest * (49 / 50 * toy_error st)"
    using e2 h by (rule order_trans)
  also have "\<dots> = (49 / 50) ^ length (step # rest) * toy_error st"
    by simp
  finally have "toy_error st' \<le> (49 / 50) ^ length (step # rest) * toy_error st" .
  moreover have "lab_for_loop X_toy Y_toy (1 / 50) st (step # rest) = Inr st'"
    using s1 s2 by simp
  ultimately show ?case by blast
qed

lemma power_thousand: "(49 / 50 :: real) ^ 1000 \<le> 1 / 10 ^ 8"
proof -
  have a: "(49 / 50 :: real) ^ 10 \<le> 82 / 100" by (simp add: power_divide)
  have "((49 / 50 :: real) ^ 10) ^ 10 \<le> (82 / 100) ^ 10"
    using a by (intro power_mono) simp_all
  also have "\<dots> \<le> 14 / 100" by (simp add: power_divide)
  finally have b: "((49 / 50 :: real) ^ 10) ^ 10 \<le> 14 / 100" .
  have "(((49 / 50 :: real) ^ 10) ^ 10) ^ 10 \<le> (14 / 100) ^ 10"
    using b by (intro power_mono) simp_all
  also have "\<dots> \<le> 1 / 10 ^ 8" by (simp add: power_divide)
  finally have "(((49 / 50 :: real) ^ 10) ^ 10) ^ 10 \<le> 1 / 10 ^ 8" .
  moreover have "(((49 / 50 :: real) ^ 10) ^ 10) ^ 10 = (49 / 50) ^ 1000"
    by (simp only: power_mult [symmetric]) simp
  ultimately show ?thesis by simp
qed

lemma abs_small:
  fixes a :: real
  assumes "a ^ 2 \<le> 104 / 10 ^ 8"
  shows "\<bar>a\<bar> < 1 / 100"
proof -
  have "\<bar>a\<bar> ^ 2 < (1 / 100) ^ 2"
    using assms by (simp add: power_divide)
  then show ?thesis
    by (rule power2_less_imp_less) simp
qed

lemma toy_loss_bounds:
  fixes a b :: real
  shows "57 / 2 * a ^ 2 + 9 * a * b + b ^ 2 \<le> 33 * (a ^ 2 + b ^ 2)"
    and "0 \<le> 57 / 2 * a ^ 2 + 9 * a * b + b ^ 2"
proof -
  define p where "p = a * b"
  have l: "57 / 2 * a ^ 2 + 9 * a * b + b ^ 2 = 57 / 2 * a ^ 2 + 9 * p + b ^ 2"
    by (simp add: p_def mult.assoc)
  have "2 * p \<le> a ^ 2 + b ^ 2"
    using sum_squares_bound [of a b] by (simp add: p_def mult.assoc)
  with zero_le_power2 [of a] zero_le_power2 [of b]
  show "57 / 2 * a ^ 2 + 9 * a * b + b ^ 2 \<le> 33 * (a ^ 2 + b ^ 2)"
    unfolding l by argo
  have "(b + 9 / 2 * a) ^ 2 = b ^ 2 + 9 * p + 81 / 4 * a ^ 2"
    by (simp add: p_def power2_eq_square algebra_simps)
  with zero_le_power2 [of "b + 9 / 2 * a"] zero_le_power2 [of a]
  show "0 \<le> 57 / 2 * a ^ 2 + 9 * a * b + b ^ 2"
    unfolding l by argo
qed

text \<open>
  C4. On the dataset \<open>X = [0..9]\<close>, \<open>Y = 2X + 10\<close>, the training loop of the lab, run
  from the weights \<open>(0, 0)\<close> for 1000 steps at the learning rate 0.02, returns weights
  within \<open>10\<^sup>-\<^sup>2\<close> of \<open>(2, 10)\<close>, and the loss at these weights is below
  \<open>10\<^sup>-\<^sup>4\<close>.
\<close>

theorem lab_training_converges:
  "\<exists>st l. train_lab X_toy Y_toy 1000 (1 / 50) = Inr st
     \<and> \<bar>lab_w0 st - 2\<bar> < 1 / 100 \<and> \<bar>lab_w1 st - 10\<bar> < 1 / 100
     \<and> loss_mse_scalar (numbers X_toy) (numbers Y_toy) (Num (lab_w0 st)) (Num (lab_w1 st))
         = Inr (Num l)
     \<and> 0 \<le> l \<and> l < 1 / 10 ^ 4"
proof -
  let ?st0 = "\<lparr>lab_w0 = 0, lab_w1 = 0, lab_printed = []\<rparr>"
  from lab_for_loop_toy [of ?st0 "range_steps 1000"] obtain st where
    run: "lab_for_loop X_toy Y_toy (1 / 50) ?st0 (range_steps 1000) = Inr st"
    and e: "toy_error st \<le> (49 / 50) ^ length (range_steps 1000) * toy_error ?st0"
    by blast
  have "(49 / 50 :: real) ^ length (range_steps 1000) * toy_error ?st0 = (49 / 50) ^ 1000 * 104"
    by (simp add: length_range_steps toy_error_def)
  also have "\<dots> \<le> 1 / 10 ^ 8 * 104"
    using power_thousand by (intro mult_right_mono) simp_all
  finally have "(49 / 50 :: real) ^ length (range_steps 1000) * toy_error ?st0 \<le> 104 / 10 ^ 8"
    by simp
  with e have E: "toy_error st \<le> 104 / 10 ^ 8" by (rule order_trans)
  let ?a = "lab_w0 st - 2" and ?b = "lab_w1 st - 10"
  from E have ab: "?a ^ 2 + ?b ^ 2 \<le> 104 / 10 ^ 8" by (simp add: toy_error_def)
  have a2: "?a ^ 2 \<le> 104 / 10 ^ 8" using ab zero_le_power2 [of ?b] by linarith
  have b2: "?b ^ 2 \<le> 104 / 10 ^ 8" using ab zero_le_power2 [of ?a] by linarith
  let ?l = "57 / 2 * ?a ^ 2 + 9 * ?a * ?b + ?b ^ 2"
  have "?l \<le> 33 * (?a ^ 2 + ?b ^ 2)" by (rule toy_loss_bounds)
  also have "\<dots> \<le> 33 * (104 / 10 ^ 8)" using ab by (intro mult_left_mono) simp_all
  also have "\<dots> < 1 / 10 ^ 4" by simp
  finally have small: "?l < 1 / 10 ^ 4" .
  have nonneg: "0 \<le> ?l" by (rule toy_loss_bounds)
  have "train_lab X_toy Y_toy 1000 (1 / 50) = Inr st"
    using run by (simp add: train_lab_def)
  moreover have "\<bar>?a\<bar> < 1 / 100" using a2 by (rule abs_small)
  moreover have "\<bar>?b\<bar> < 1 / 100" using b2 by (rule abs_small)
  moreover have "loss_mse_scalar (numbers X_toy) (numbers Y_toy) (Num (lab_w0 st)) (Num (lab_w1 st))
      = Inr (Num ?l)"
    by (rule loss_toy)
  ultimately show ?thesis using nonneg small by blast
qed

section \<open>The loss is never negative\<close>

lemma fsum_squares:
  "fsum (map (\<lambda>x. fmul x x) d) = NaN \<or> (\<exists>s. fsum (map (\<lambda>x. fmul x x) d) = Num s \<and> 0 \<le> s)"
proof (induction d)
  case Nil
  show ?case by simp
next
  case (Cons x d)
  show ?case
  proof (cases x)
    case NaN
    then show ?thesis by simp
  next
    case (Num a)
    from Cons.IH show ?thesis
    proof
      assume "fsum (map (\<lambda>x. fmul x x) d) = NaN"
      then show ?thesis by simp
    next
      assume "\<exists>s. fsum (map (\<lambda>x. fmul x x) d) = Num s \<and> 0 \<le> s"
      then obtain s where "fsum (map (\<lambda>x. fmul x x) d) = Num s" "0 \<le> s" by blast
      with Num show ?thesis by simp
    qed
  qed
qed

lemma mean_squares_never_negative:
  "reduce_mean (tf_square d) = NaN \<or> fle (Num 0) (reduce_mean (tf_square d))"
proof -
  from fsum_squares [of d] show ?thesis
  proof
    assume "fsum (map (\<lambda>x. fmul x x) d) = NaN"
    then show ?thesis by (simp add: reduce_mean_def tf_square_def)
  next
    assume "\<exists>s. fsum (map (\<lambda>x. fmul x x) d) = Num s \<and> 0 \<le> s"
    then obtain s where "fsum (map (\<lambda>x. fmul x x) d) = Num s" "0 \<le> s" by blast
    then show ?thesis by (simp add: reduce_mean_def tf_square_def fle_def)
  qed
qed

lemma loss_mse_never_negative:
  assumes "loss_mse X Y w = Inr v"
  shows "v = NaN \<or> fle (Num 0) v"
proof -
  from assms obtain d where v: "v = reduce_mean (tf_square d)"
    by (auto simp add: loss_mse_def bindE_eq_Inr Let_def)
  with mean_squares_never_negative [of d] show ?thesis by simp
qed

lemma loss_mse_scalar_never_negative:
  assumes "loss_mse_scalar X Y w0 w1 = Inr v"
  shows "v = NaN \<or> fle (Num 0) v"
proof -
  from assms obtain d where v: "v = reduce_mean (tf_square d)"
    by (auto simp add: loss_mse_scalar_def bindE_eq_Inr Let_def)
  with mean_squares_never_negative [of d] show ?thesis by simp
qed

lemma numbers_inject: "numbers a = numbers b \<longleftrightarrow> a = b"
  by (simp add: numbers_def inj_map_eq_map inj_on_def)

lemma mean_of_squared_differences:
  assumes "length P = length Ys" and "Ys \<noteq> []"
  shows "\<exists>l. reduce_mean (numbers (map (\<lambda>x. x ^ 2) (map2 (\<lambda>p y. p - y) P Ys))) = Num l
    \<and> 0 \<le> l \<and> (P = Ys \<longrightarrow> l = 0)"
proof -
  let ?d = "map2 (\<lambda>p y. p - y) P Ys"
  from assms have ne: "map (\<lambda>x. x ^ 2) ?d \<noteq> []" by (cases P; cases Ys) simp_all
  have nn: "0 \<le> sum_list (map (\<lambda>x. x ^ 2) ?d)"
    by (rule sum_list_nonneg) auto
  have z: "P = Ys \<longrightarrow> sum_list (map (\<lambda>x. x ^ 2) ?d) = 0"
  proof
    assume "P = Ys"
    then have "map (\<lambda>x. x ^ 2) ?d = map (\<lambda>_. 0) Ys"
      by (simp add: zip_same_conv_map comp_def)
    then show "sum_list (map (\<lambda>x. x ^ 2) ?d) = 0" by (simp only: sum_list_0)
  qed
  from ne have "reduce_mean (numbers (map (\<lambda>x. x ^ 2) ?d))
      = Num (sum_list (map (\<lambda>x. x ^ 2) ?d) / real (length (map (\<lambda>x. x ^ 2) ?d)))"
    by (simp only: reduce_mean_numbers if_False)
  moreover have "0 \<le> sum_list (map (\<lambda>x. x ^ 2) ?d) / real (length (map (\<lambda>x. x ^ 2) ?d))"
    using nn by simp
  moreover have "P = Ys \<longrightarrow> sum_list (map (\<lambda>x. x ^ 2) ?d) / real (length (map (\<lambda>x. x ^ 2) ?d)) = 0"
    using z by simp
  ultimately show ?thesis by blast
qed

text \<open>
  On the dataset with no sample the loss is the mean of no number: NaN, which is
  neither non-negative nor zero, although no sample is predicted wrongly. On the
  dataset of the one sample \<open>(-1, 1)\<close>, all numbers, the loss is NaN as well: a feature
  is the square root of \<open>-1\<close>.
\<close>

theorem loss_of_empty_dataset_is_nan:
  "loss_mse \<lparr>ncols = 2, rows = []\<rparr> [] (zeros 2 1) = Inr NaN
   \<and> \<not> fle (Num 0) NaN
   \<and> predict \<lparr>ncols = 2, rows = []\<rparr> (zeros 2 1) = Inr []
   \<and> NaN \<noteq> Num 0
   \<and> bindE (make_features (numbers [- 1])) (\<lambda>Xf. loss_mse Xf (numbers [1]) (zeros 5 1)) = Inr NaN"
proof -
  have a: "loss_mse \<lparr>ncols = 2, rows = []\<rparr> [] (zeros 2 1) = Inr NaN"
    by (simp add: loss_mse_def predict_def matmul_def squeeze_def tf_sub_def tf_square_def
      reduce_mean_def zeros_def nrows_def col_def)
  have b: "\<not> fle (Num 0) NaN" by (simp add: fle_def)
  have c: "predict \<lparr>ncols = 2, rows = []\<rparr> (zeros 2 1) = Inr []"
    by (simp add: predict_def matmul_def squeeze_def zeros_def nrows_def col_def)
  have d: "NaN \<noteq> Num 0" by simp
  let ?X = "\<lparr>ncols = 5, rows = [[Num 1, Num (- 1), Num 1, NaN, Num (exp (- 1))]]\<rparr>"
  have "shapes_ok ?X (numbers [1]) (zeros 5 1)"
    by (simp add: shapes_ok_def zeros_def nrows_def)
  then obtain l where l: "loss_mse ?X (numbers [1]) (zeros 5 1) = Inr l"
    using loss_mse_ok by blast
  have "shape (zeros 5 1) = (5, 1)" by (simp add: shape_zeros)
  from loss_mse_nan_feature [OF this l] l
  have e: "bindE (make_features (numbers [- 1])) (\<lambda>Xf. loss_mse Xf (numbers [1]) (zeros 5 1)) = Inr NaN"
    by (simp add: make_features_negative)
  show ?thesis
    by (intro conjI) (fact a b c d e)+
qed

text \<open>
  C10, as far as it holds. Whatever the loss evaluator returns is NaN or not negative,
  for \<open>loss_mse\<close> of the bonus section and for the one of the lab, on every tensor.
  On a dataset of numbers with at least one sample it returns a number that is not
  negative, and the number is zero whenever the prediction equals the target on every
  sample. (The converse, that the loss is zero at an exact fit only, holds for exact
  numbers but not for \<^verbatim>\<open>float32\<close>, where the square of a small error underflows to
  zero; it is not stated.)
\<close>

theorem loss_nonnegative_zero_at_exact_fit:
  "(loss_mse X Y w = Inr l0 \<longrightarrow> l0 = NaN \<or> fle (Num 0) l0)
   \<and> (loss_mse_scalar X1 Y1 w0 w1 = Inr l1 \<longrightarrow> l1 = NaN \<or> fle (Num 0) l1)
   \<and> (Xs \<noteq> [] \<and> length Xs = length Ys \<and> length v = n \<longrightarrow>
      (\<exists>l. loss_mse (number_matrix n Xs) (numbers Ys) (column (numbers v)) = Inr (Num l)
         \<and> 0 \<le> l
         \<and> (predict (number_matrix n Xs) (column (numbers v)) = Inr (numbers Ys) \<longrightarrow> l = 0)))
   \<and> (xs \<noteq> [] \<and> length xs = length ys \<longrightarrow>
      (\<exists>l. loss_mse_scalar (numbers xs) (numbers ys) (Num a) (Num b) = Inr (Num l)
         \<and> 0 \<le> l
         \<and> (map (\<lambda>x. a * x + b) xs = ys \<longrightarrow> l = 0)))"
proof (intro conjI impI)
  assume "loss_mse X Y w = Inr l0"
  then show "l0 = NaN \<or> fle (Num 0) l0" by (rule loss_mse_never_negative)
next
  assume "loss_mse_scalar X1 Y1 w0 w1 = Inr l1"
  then show "l1 = NaN \<or> fle (Num 0) l1" by (rule loss_mse_scalar_never_negative)
next
  assume a: "Xs \<noteq> [] \<and> length Xs = length Ys \<and> length v = n"
  then have len: "length (mat_vec Xs v) = length Ys" and ne: "Ys \<noteq> []"
    by (auto simp add: mat_vec_def)
  from a have p: "predict (number_matrix n Xs) (column (numbers v)) = Inr (numbers (mat_vec Xs v))"
    by (simp add: predict_numbers)
  from mean_of_squared_differences [OF len ne] a
  show "\<exists>l. loss_mse (number_matrix n Xs) (numbers Ys) (column (numbers v)) = Inr (Num l)
      \<and> 0 \<le> l
      \<and> (predict (number_matrix n Xs) (column (numbers v)) = Inr (numbers Ys) \<longrightarrow> l = 0)"
    by (auto simp add: loss_mse_eq p numbers_inject)
next
  assume a: "xs \<noteq> [] \<and> length xs = length ys"
  then have len: "length (mat_vec (map (\<lambda>x. [x, 1]) xs) [a, b]) = length ys" and ne: "ys \<noteq> []"
    by (auto simp add: mat_vec_def)
  have p: "mat_vec (map (\<lambda>x. [x, 1]) xs) [a, b] = map (\<lambda>x. a * x + b) xs"
    by (simp add: mat_vec_def dot_def comp_def mult.commute)
  from mean_of_squared_differences [OF len ne] a
  show "\<exists>l. loss_mse_scalar (numbers xs) (numbers ys) (Num a) (Num b) = Inr (Num l)
      \<and> 0 \<le> l
      \<and> (map (\<lambda>x. a * x + b) xs = ys \<longrightarrow> l = 0)"
    unfolding p by (auto simp add: loss_mse_scalar_eq p)
qed

theorem loss_nonnegative_zero_at_exact_fit_witness:
  "loss_mse (number_matrix 2 [[1, 0], [1, 1], [1, 2]]) (numbers [1, 3, 5]) (column (numbers [1, 2]))
     = Inr (Num 0)
   \<and> predict (number_matrix 2 [[1, 0], [1, 1], [1, 2]]) (column (numbers [1, 2]))
     = Inr (numbers [1, 3, 5])
   \<and> loss_mse (number_matrix 2 [[1, 0], [1, 1], [1, 2]]) (numbers [1, 3, 5]) (column (numbers [0, 1]))
     = Inr (Num (14 / 3))
   \<and> fle (Num 0) (Num (14 / 3))
   \<and> loss_mse_scalar (numbers [0, 1, 2]) (numbers [1, 3, 5]) (Num 2) (Num 1) = Inr (Num 0)
   \<and> map (\<lambda>x. 2 * x + 1) [0, 1, 2] = [1, 3, 5 :: real]
   \<and> loss_mse_scalar (numbers [0, 1, 2]) (numbers [1, 3, 5]) (Num 1) (Num 0) = Inr (Num (14 / 3))"
proof -
  let ?Xs = "[[1, 0], [1, 1], [1, 2 :: real]]"
  let ?X = "number_matrix 2 ?Xs"
  let ?Y = "numbers [1, 3, 5]"
  have p0: "predict ?X (column (numbers [1, 2])) = Inr ?Y" by code_simp
  have l1: "loss_mse ?X ?Y (column (numbers [0, 1])) = Inr (Num (14 / 3))" by code_simp
  have s1: "loss_mse_scalar (numbers [0, 1, 2]) ?Y (Num 1) (Num 0) = Inr (Num (14 / 3))"
    by code_simp
  have m0: "map (\<lambda>x. 2 * x + 1) [0, 1, 2] = [1, 3, 5 :: real]" by simp
  note th = loss_nonnegative_zero_at_exact_fit
    [of ?X ?Y "column (numbers [0, 1])" "Num (14 / 3)"
        "numbers [0, 1, 2]" ?Y "Num 1" "Num 0" "Num (14 / 3)"
        ?Xs "[1, 3, 5]" "[1, 2]" 2 "[0, 1, 2]" "[1, 3, 5]" 2 1]
  from th l1 have f1: "fle (Num 0) (Num (14 / 3))" by blast
  from th s1 have "fle (Num 0) (Num (14 / 3))" by blast
  from th p0 have l0: "loss_mse ?X ?Y (column (numbers [1, 2])) = Inr (Num 0)"
    by auto
  from th m0 have s0: "loss_mse_scalar (numbers [0, 1, 2]) ?Y (Num 2) (Num 1) = Inr (Num 0)"
    by auto
  show ?thesis
    by (intro conjI) (fact l0 p0 l1 f1 s0 m0 s1)+
qed

section \<open>The training loop is the iterated gradient step\<close>

lemma fmul_commute: "fmul x y = fmul y x"
  by (cases x; cases y) simp_all

lemma map2_sub_scaled:
  "map2 (\<lambda>x y. fsub x y) r (map (\<lambda>x. fmul x (Num c)) d)
    = map2 (\<lambda>x g. fsub x (fmul (Num c) g)) r d"
proof -
  have e: "(\<lambda>x. fmul x (Num c)) = (\<lambda>x. fmul (Num c) x)"
    by (rule ext) (rule fmul_commute)
  have "map2 (\<lambda>x y. fsub x y) r (map (\<lambda>x. fmul (Num c) x) d)
      = map2 (\<lambda>x g. fsub x (fmul (Num c) g)) r d"
  proof (induction r arbitrary: d)
    case Nil
    show ?case by simp
  next
    case (Cons x xs)
    show ?case by (cases d) (simp_all add: Cons.IH)
  qed
  then show ?thesis by (simp only: e)
qed

lemma rows_sub_scaled:
  "map2 (\<lambda>r d. map2 (\<lambda>x y. fsub x y) r d) ws (map (map (\<lambda>x. fmul x (Num c))) gs)
    = map2 (\<lambda>w_row g_row. map2 (\<lambda>x g. fsub x (fmul (Num c) g)) w_row g_row) ws gs"
proof (induction ws arbitrary: gs)
  case Nil
  show ?case by simp
next
  case (Cons w ws)
  show ?case by (cases gs) (simp_all add: Cons.IH map2_sub_scaled)
qed

lemma gd_step_descent_step: "gd_step Xf Y lr w = descent_step Xf Y lr w"
proof (cases "compute_gradients Xf Y w")
  case (Inl e)
  then show ?thesis by (simp add: gd_step_def descent_step_def)
next
  case (Inr g)
  then have ok: "shapes_ok Xf Y w" using compute_gradients_ok by blast
  from compute_gradients_shape [OF ok] Inr have "ncols g = 1" "nrows g = nrows w"
    by simp_all
  with ok have "shape w = shape (scale g lr)"
    by (simp add: shape_def shapes_ok_def)
  with Inr show ?thesis
    by (simp add: gd_step_def descent_step_def assign_sub_def scale_def rows_sub_scaled)
qed

lemma length_gd_iterate [simp]: "length (gd_iterate Xs ys lr n v) = length v"
  by (induction n arbitrary: v) simp_all

lemma map2_real_sub_scaled:
  "map2 (\<lambda>x y. x - y) r (map (\<lambda>x. x * c) d) = map2 (\<lambda>x g. x - c * g) r (d :: real list)"
proof (induction r arbitrary: d)
  case Nil
  show ?case by simp
next
  case (Cons x xs)
  show ?case by (cases d) (simp_all add: Cons.IH mult.commute)
qed

lemma funpow_gd_step_column:
  assumes "Xs \<noteq> []" and "list_all (\<lambda>r. length r = n) Xs" and "length Xs = length Ys"
  shows "length v = n \<Longrightarrow>
    ((\<lambda>r. bindE r (gd_step (number_matrix n Xs) (numbers Ys) lr)) ^^ k) (Inr (column (numbers v)))
      = Inr (column (numbers (gd_iterate Xs Ys lr k v)))"
proof (induction k arbitrary: v)
  case 0
  show ?case by simp
next
  case (Suc k)
  let ?v' = "map2 (\<lambda>x g. x - lr * g) v (grad_closed_form Xs Ys v)"
  have step: "gd_step (number_matrix n Xs) (numbers Ys) lr (column (numbers v))
      = Inr (column (numbers ?v'))"
    using assms Suc.prems by (simp add: gd_step_column map2_real_sub_scaled)
  have "length ?v' = n" using Suc.prems by simp
  from Suc.IH [OF this] step show ?case
    by (simp add: funpow_Suc_right del: funpow.simps)
qed

text \<open>
  C1. For every feature matrix, targets, learning rate, step count \<open>STEPS\<close> and
  starting state, the loop over \<^verbatim>\<open>range(1, STEPS + 1)\<close> ends, and what it ends with
  is the \<open>STEPS\<close>-fold iteration, on the starting weights, of the single update
  \<open>w \<mapsto> w - LEARNING_RATE * gradient(dataset, w)\<close> written out entry by entry
  (\<open>descent_step\<close>): the final weights, or the error of the first update that raised.
  The body runs once for each of the \<open>STEPS\<close> elements of the range (none when
  \<open>STEPS\<close> is negative); no loss value recorded on the way enters the weights or ends
  the loop. On compatible shapes no update raises, so the loop returns a state; and on
  a rectangular dataset of numbers with at least one sample the final weights are the
  \<open>STEPS\<close>-fold iterate of \<open>v \<mapsto> v - LEARNING_RATE * (2/m) * X\<^sup>t(Xv - y)\<close> on the
  starting weight vector.
\<close>

theorem training_loop_is_iterated_step:
  "final_W (for_loop Xf Y LEARNING_RATE st (range_steps STEPS)) =
     ((\<lambda>r. bindE r (descent_step Xf Y LEARNING_RATE)) ^^ nat STEPS) (Inr (st_W st))
   \<and> length (range_steps STEPS) = nat STEPS
   \<and> (shapes_ok Xf Y (st_W st) \<longrightarrow>
        (\<exists>st'. for_loop Xf Y LEARNING_RATE st (range_steps STEPS) = Inr st'))
   \<and> (Xs \<noteq> [] \<and> wf_matrix (number_matrix n Xs) \<and> length Xs = length Ys \<and> length v = n
        \<and> st_W st = column (numbers v) \<longrightarrow>
        final_W (for_loop (number_matrix n Xs) (numbers Ys) LEARNING_RATE st (range_steps STEPS))
          = Inr (column (numbers (gd_iterate Xs Ys LEARNING_RATE (nat STEPS) v))))"
proof -
  have eq: "gd_step Xf Y LEARNING_RATE = descent_step Xf Y LEARNING_RATE"
    by (rule ext) (rule gd_step_descent_step)
  have a: "final_W (for_loop Xf Y LEARNING_RATE st (range_steps STEPS)) =
     ((\<lambda>r. bindE r (descent_step Xf Y LEARNING_RATE)) ^^ nat STEPS) (Inr (st_W st))"
    using for_loop_W [of Xf Y LEARNING_RATE st "range_steps STEPS"]
    by (simp add: length_range_steps eq)
  have b: "length (range_steps STEPS) = nat STEPS" by (rule length_range_steps)
  have c: "shapes_ok Xf Y (st_W st) \<longrightarrow>
        (\<exists>st'. for_loop Xf Y LEARNING_RATE st (range_steps STEPS) = Inr st')"
    using for_loop_ok by blast
  have d: "Xs \<noteq> [] \<and> wf_matrix (number_matrix n Xs) \<and> length Xs = length Ys \<and> length v = n
        \<and> st_W st = column (numbers v) \<longrightarrow>
        final_W (for_loop (number_matrix n Xs) (numbers Ys) LEARNING_RATE st (range_steps STEPS))
          = Inr (column (numbers (gd_iterate Xs Ys LEARNING_RATE (nat STEPS) v)))"
    using for_loop_W [of "number_matrix n Xs" "numbers Ys" LEARNING_RATE st "range_steps STEPS"]
    by (auto simp add: length_range_steps funpow_gd_step_column wf_number_matrix)
  from a b c d show ?thesis by blast
qed

theorem training_loop_is_iterated_step_witness:
  "shapes_ok (number_matrix 2 [[1, 0], [1, 1], [1, 2]]) (numbers [1, 3, 5]) (column (numbers [0, 0]))
   \<and> for_loop (number_matrix 2 [[1, 0], [1, 1], [1, 2]]) (numbers [1, 3, 5]) (1 / 10)
        \<lparr>st_W = column (numbers [0, 0]), st_steps = [], st_losses = []\<rparr> (range_steps 3)
      = Inr \<lparr>st_W = column (numbers [1193 / 1125, 5293 / 3375]), st_steps = [], st_losses = []\<rparr>
   \<and> gd_iterate [[1, 0], [1, 1], [1, 2]] [1, 3, 5] (1 / 10) 3 [0, 0] = [1193 / 1125, 5293 / 3375]
   \<and> gd_iterate [[1, 0], [1, 1], [1, 2]] [1, 3, 5] (1 / 10) 1 [0, 0]
      = [0 - 1 / 10 * (- 6), 0 - 1 / 10 * (- (26 / 3))]
   \<and> ((\<lambda>r. bindE r (descent_step (number_matrix 2 [[1, 0], [1, 1], [1, 2]]) (numbers [1, 3, 5])
                       (1 / 10))) ^^ 3)
        (Inr (column (numbers [0, 0])))
      = Inr (column (numbers [1193 / 1125, 5293 / 3375]))"
proof -
  let ?Xs = "[[1, 0], [1, 1], [1, 2 :: real]]"
  let ?X = "number_matrix 2 ?Xs"
  let ?Y = "numbers [1, 3, 5]"
  let ?st = "\<lparr>st_W = column (numbers [0, 0]), st_steps = [], st_losses = []\<rparr>"
  have ok: "shapes_ok ?X ?Y (column (numbers [0, 0]))"
    by (simp add: shapes_ok_def)
  have it: "gd_iterate ?Xs [1, 3, 5] (1 / 10) 3 [0, 0] = [1193 / 1125, 5293 / 3375]"
    by code_simp
  have one: "gd_iterate ?Xs [1, 3, 5] (1 / 10) 1 [0, 0]
      = [0 - 1 / 10 * (- 6), 0 - 1 / 10 * (- (26 / 3))]"
    by code_simp
  note th = training_loop_is_iterated_step
    [of ?X ?Y "1 / 10" ?st 3 ?Xs 2 "[1, 3, 5]" "[0, 0]"]
  have n3: "nat 3 = 3" by simp
  from th ok obtain st' where st': "for_loop ?X ?Y (1 / 10) ?st (range_steps 3) = Inr st'"
    by auto
  have hyp: "?Xs \<noteq> [] \<and> wf_matrix ?X \<and> length ?Xs = length [1, 3, 5 :: real]
      \<and> length [0, 0 :: real] = 2 \<and> st_W ?st = column (numbers [0, 0])"
    by (simp add: wf_number_matrix)
  from th hyp have "final_W (for_loop ?X ?Y (1 / 10) ?st (range_steps 3))
      = Inr (column (numbers (gd_iterate ?Xs [1, 3, 5] (1 / 10) (nat 3) [0, 0])))"
    by blast
  then have fw: "final_W (for_loop ?X ?Y (1 / 10) ?st (range_steps 3))
      = Inr (column (numbers [1193 / 1125, 5293 / 3375]))"
    by (simp only: n3 it)
  have run: "for_loop ?X ?Y (1 / 10) ?st (range_steps 3)
      = Inr \<lparr>st_W = column (numbers [1193 / 1125, 5293 / 3375]), st_steps = [], st_losses = []\<rparr>"
    by code_simp
  from th have "final_W (for_loop ?X ?Y (1 / 10) ?st (range_steps 3)) =
     ((\<lambda>r. bindE r (descent_step ?X ?Y (1 / 10))) ^^ nat 3) (Inr (st_W ?st))"
    by (rule conjunct1)
  then have iter: "((\<lambda>r. bindE r (descent_step ?X ?Y (1 / 10))) ^^ 3) (Inr (column (numbers [0, 0])))
      = Inr (column (numbers [1193 / 1125, 5293 / 3375]))"
    by (simp only: fw n3 train_state.simps)
  show ?thesis
    by (intro conjI) (fact ok run it one iter)+
qed

end
